theory Spec2Isabelle
  imports Main "HOL-Library.Sublist"
begin

section \<open>Characters and strings\<close>

text \<open>
  A Python \<open>str\<close> is modelled as a HOL \<open>string\<close>; a \<open>char\<close> stands for the code point of the
  same number, so the model covers the code points below 256.  The character classes below are
  the ones Python's \<open>re\<close> and \<open>str.strip\<close> use on those code points.
\<close>

definition is_space :: "char \<Rightarrow> bool" where
  \<comment> \<open>\<open>\s\<close> and \<open>str.isspace\<close>: TAB, LF, VT, FF, CR, FS, GS, RS, US, space, NEL, NBSP\<close>
  "is_space c = (c \<in> set [CHR 0x09, CHR 0x0A, CHR 0x0B, CHR 0x0C, CHR 0x0D,
                           CHR 0x1C, CHR 0x1D, CHR 0x1E, CHR 0x1F, CHR 0x20, CHR 0x85, CHR 0xA0])"

definition is_word :: "char \<Rightarrow> bool" where
  \<comment> \<open>\<open>\w\<close>: alphanumeric code points and the underscore\<close>
  "is_word c = (let n = (of_char c :: nat) in
     (48 \<le> n \<and> n \<le> 57) \<or> (65 \<le> n \<and> n \<le> 90) \<or> n = 95 \<or> (97 \<le> n \<and> n \<le> 122) \<or>
     n = 170 \<or> n = 178 \<or> n = 179 \<or> n = 181 \<or> n = 185 \<or> n = 186 \<or>
     (188 \<le> n \<and> n \<le> 190) \<or> (192 \<le> n \<and> n \<le> 214) \<or> (216 \<le> n \<and> n \<le> 246) \<or>
     (248 \<le> n \<and> n \<le> 255))"

definition lower_char :: "char \<Rightarrow> char" where
  \<comment> \<open>case folding of the ASCII letters, the only letters the patterns of the program contain\<close>
  "lower_char c = (let n = (of_char c :: nat) in
     if 65 \<le> n \<and> n \<le> 90 then char_of (n + 32) else c)"

definition lower_str :: "string \<Rightarrow> string" where
  "lower_str s = map lower_char s"

fun starts_with :: "string \<Rightarrow> string \<Rightarrow> bool" where
  \<comment> \<open>\<open>s.startswith(p)\<close>, written \<open>starts_with p s\<close>\<close>
  "starts_with [] s = True"
| "starts_with (p # ps) [] = False"
| "starts_with (p # ps) (c # cs) = (p = c \<and> starts_with ps cs)"

fun contains_str :: "string \<Rightarrow> string \<Rightarrow> bool" where
  \<comment> \<open>\<open>p in s\<close>, written \<open>contains_str p s\<close>\<close>
  "contains_str p [] = (p = [])"
| "contains_str p (c # cs) = (starts_with p (c # cs) \<or> contains_str p cs)"

fun replace_first :: "string \<Rightarrow> string \<Rightarrow> string \<Rightarrow> string" where
  \<comment> \<open>\<open>s.replace(old, new, 1)\<close>, written \<open>replace_first old new s\<close>\<close>
  "replace_first old new [] = (if old = [] then new else [])"
| "replace_first old new (c # cs) =
     (if starts_with old (c # cs) then new @ drop (length old) (c # cs)
      else c # replace_first old new cs)"

definition strip :: "string \<Rightarrow> string" where
  \<comment> \<open>\<open>s.strip()\<close>\<close>
  "strip s = rev (dropWhile is_space (rev (dropWhile is_space s)))"

fun join_with :: "string \<Rightarrow> string list \<Rightarrow> string" where
  \<comment> \<open>\<open>sep.join(xs)\<close>\<close>
  "join_with sep [] = []"
| "join_with sep [x] = x"
| "join_with sep (x # y # ys) = x @ sep @ join_with sep (y # ys)"


section \<open>Regular expressions with Python's backtracking order\<close>

text \<open>
  The patterns of the program are written as terms of \<open>regex\<close>.  A match state holds the
  character before the current position (for \<open>\b\<close> and \<open>^\<close>), the input still to be read and the
  groups captured so far, most recent first.  \<open>ends r st\<close> lists every state in which a match of
  \<open>r\<close> started in \<open>st\<close> can end, in the order in which a backtracking matcher tries them: the
  head of the list is the match that \<open>re\<close> reports.
\<close>

datatype regex =
    Chr "char \<Rightarrow> bool"      \<comment> \<open>one character of a class\<close>
  | Eps                     \<comment> \<open>the empty pattern\<close>
  | Seq regex regex         \<comment> \<open>\<open>ab\<close>\<close>
  | Alt regex regex         \<comment> \<open>\<open>a|b\<close>\<close>
  | Star regex              \<comment> \<open>greedy \<open>a*\<close>\<close>
  | LazyStar regex          \<comment> \<open>non-greedy \<open>a*?\<close>\<close>
  | Group nat regex         \<comment> \<open>capturing group with its number\<close>
  | Ahead regex             \<comment> \<open>lookahead \<open>(?=a)\<close>\<close>
  | WordBoundary            \<comment> \<open>\<open>\b\<close>\<close>
  | Bol                     \<comment> \<open>\<open>^\<close> without MULTILINE\<close>
  | Eol                     \<comment> \<open>\<open>$\<close> without MULTILINE\<close>

type_synonym mstate = "char option \<times> string \<times> (nat \<times> string) list"

definition st_rest :: "mstate \<Rightarrow> string" where
  "st_rest st = fst (snd st)"

primrec iter_greedy :: "nat \<Rightarrow> (mstate \<Rightarrow> mstate list) \<Rightarrow> mstate \<Rightarrow> mstate list" where
  \<comment> \<open>as many rounds as possible first; a round that reads nothing is not repeated\<close>
  "iter_greedy 0 f st = [st]"
| "iter_greedy (Suc n) f st =
     concat (map (\<lambda>st'. if length (st_rest st') < length (st_rest st)
                          then iter_greedy n f st' else []) (f st)) @ [st]"

primrec iter_lazy :: "nat \<Rightarrow> (mstate \<Rightarrow> mstate list) \<Rightarrow> mstate \<Rightarrow> mstate list" where
  \<comment> \<open>as few rounds as possible first\<close>
  "iter_lazy 0 f st = [st]"
| "iter_lazy (Suc n) f st =
     st # concat (map (\<lambda>st'. if length (st_rest st') < length (st_rest st)
                               then iter_lazy n f st' else []) (f st))"

definition at_boundary :: "char option \<Rightarrow> string \<Rightarrow> bool" where
  "at_boundary p s =
     ((case p of None \<Rightarrow> False | Some c \<Rightarrow> is_word c) \<noteq>
      (case s of [] \<Rightarrow> False | c # _ \<Rightarrow> is_word c))"

fun ends :: "regex \<Rightarrow> mstate \<Rightarrow> mstate list" where
  "ends (Chr P) (p, s, g) =
     (case s of [] \<Rightarrow> [] | c # cs \<Rightarrow> if P c then [(Some c, cs, g)] else [])"
| "ends Eps st = [st]"
| "ends (Seq a b) st = concat (map (ends b) (ends a st))"
| "ends (Alt a b) st = ends a st @ ends b st"
| "ends (Star a) st = iter_greedy (length (st_rest st)) (ends a) st"
| "ends (LazyStar a) st = iter_lazy (length (st_rest st)) (ends a) st"
| "ends (Group k a) (p, s, g) =
     map (\<lambda>(p', s', g'). (p', s', (k, take (length s - length s') s) # g')) (ends a (p, s, g))"
| "ends (Ahead a) (p, s, g) =
     (case ends a (p, s, g) of [] \<Rightarrow> [] | st' # _ \<Rightarrow> [(p, s, snd (snd st'))])"
| "ends WordBoundary (p, s, g) = (if at_boundary p s then [(p, s, g)] else [])"
| "ends Bol (p, s, g) = (if p = None then [(p, s, g)] else [])"
| "ends Eol (p, s, g) = (if s = [] \<or> s = [CHR 0x0A] then [(p, s, g)] else [])"

text \<open>Pattern syntax: literals, literals under IGNORECASE, \<open>a+\<close>, \<open>a+?\<close>, \<open>a?\<close>.\<close>

definition lit :: "string \<Rightarrow> regex" where
  "lit s = foldr (\<lambda>c r. Seq (Chr (\<lambda>x. x = c)) r) s Eps"

definition lit_ci :: "string \<Rightarrow> regex" where
  "lit_ci s = foldr (\<lambda>c r. Seq (Chr (\<lambda>x. lower_char x = lower_char c)) r) s Eps"

definition Plus :: "regex \<Rightarrow> regex" where
  "Plus a = Seq a (Star a)"

definition LazyPlus :: "regex \<Rightarrow> regex" where
  "LazyPlus a = Seq a (LazyStar a)"

definition Opt :: "regex \<Rightarrow> regex" where
  "Opt a = Alt a Eps"

fun seqs :: "regex list \<Rightarrow> regex" where
  "seqs [] = Eps"
| "seqs (a # as) = Seq a (seqs as)"

text \<open>
  The result of a match: the number of characters it spans and its groups.  \<open>group k m\<close> is
  \<open>m.group(k)\<close> for a group that took part in the match.
\<close>

type_synonym rmatch = "nat \<times> (nat \<times> string) list"

definition match_here :: "regex \<Rightarrow> char option \<Rightarrow> string \<Rightarrow> rmatch option" where
  \<comment> \<open>the match of the pattern that starts at the current position, if there is one\<close>
  "match_here r p s =
     (case ends r (p, s, []) of [] \<Rightarrow> None
      | st # _ \<Rightarrow> Some (length s - length (st_rest st), snd (snd st)))"

definition group :: "nat \<Rightarrow> rmatch \<Rightarrow> string" where
  "group k m = (case map_of (snd m) k of None \<Rightarrow> [] | Some v \<Rightarrow> v)"

definition re_match :: "regex \<Rightarrow> string \<Rightarrow> rmatch option" where
  \<comment> \<open>\<open>pattern.match(s)\<close>\<close>
  "re_match r s = match_here r None s"

text \<open>
  \<open>search\<close>, \<open>sub\<close> and \<open>findall\<close> scan the input from left to right.  The scanning functions
  recurse on the input; \<open>k\<close> counts the characters still covered by the match found last, which
  are passed over.  No pattern of the program matches the empty string; an empty match is
  followed by a step of one character.
\<close>

fun re_search_from :: "regex \<Rightarrow> char option \<Rightarrow> nat \<Rightarrow> string \<Rightarrow> (nat \<times> rmatch) option" where
  \<comment> \<open>the leftmost match: its start position and the match\<close>
  "re_search_from r p i [] = map_option (Pair i) (match_here r p [])"
| "re_search_from r p i (c # cs) =
     (case match_here r p (c # cs) of
        Some m \<Rightarrow> Some (i, m)
      | None \<Rightarrow> re_search_from r (Some c) (Suc i) cs)"

definition re_search :: "regex \<Rightarrow> string \<Rightarrow> (nat \<times> rmatch) option" where
  \<comment> \<open>\<open>pattern.search(s)\<close>\<close>
  "re_search r s = re_search_from r None 0 s"

fun re_sub_from :: "regex \<Rightarrow> (rmatch \<Rightarrow> string) \<Rightarrow> char option \<Rightarrow> nat \<Rightarrow> string \<Rightarrow> string" where
  "re_sub_from r f p k [] =
     (if k = 0 then (case match_here r p [] of None \<Rightarrow> [] | Some m \<Rightarrow> f m) else [])"
| "re_sub_from r f p k (c # cs) =
     (if 0 < k then re_sub_from r f (Some c) (k - 1) cs
      else (case match_here r p (c # cs) of
              None \<Rightarrow> c # re_sub_from r f (Some c) 0 cs
            | Some m \<Rightarrow>
                if fst m = 0 then f m @ c # re_sub_from r f (Some c) 0 cs
                else f m @ re_sub_from r f (Some c) (fst m - 1) cs))"

definition re_sub :: "regex \<Rightarrow> (rmatch \<Rightarrow> string) \<Rightarrow> string \<Rightarrow> string" where
  \<comment> \<open>\<open>pattern.sub(f, s)\<close>\<close>
  "re_sub r f s = re_sub_from r f None 0 s"

definition re_sub_once :: "regex \<Rightarrow> (rmatch \<Rightarrow> string) \<Rightarrow> string \<Rightarrow> string" where
  \<comment> \<open>\<open>pattern.sub(f, s, count=1)\<close>\<close>
  "re_sub_once r f s =
     (case re_search r s of None \<Rightarrow> s
      | Some (i, m) \<Rightarrow> take i s @ f m @ drop (i + fst m) s)"

fun re_findall_from :: "regex \<Rightarrow> char option \<Rightarrow> nat \<Rightarrow> string \<Rightarrow> rmatch list" where
  "re_findall_from r p k [] =
     (if k = 0 then (case match_here r p [] of None \<Rightarrow> [] | Some m \<Rightarrow> [m]) else [])"
| "re_findall_from r p k (c # cs) =
     (if 0 < k then re_findall_from r (Some c) (k - 1) cs
      else (case match_here r p (c # cs) of
              None \<Rightarrow> re_findall_from r (Some c) 0 cs
            | Some m \<Rightarrow> m # re_findall_from r (Some c) (fst m - 1) cs))"

definition re_findall1 :: "regex \<Rightarrow> string \<Rightarrow> string list" where
  \<comment> \<open>\<open>pattern.findall(s)\<close> for a pattern with one group: the list of that group's texts\<close>
  "re_findall1 r s = map (group 1) (re_findall_from r None 0 s)"


section \<open>Normalizer\<close>

definition SPACE :: regex where
  "SPACE = Chr is_space"

definition ANY :: regex where
  \<comment> \<open>\<open>.\<close> under DOTALL, and \<open>[\s\S]\<close>\<close>
  "ANY = Chr (\<lambda>c. True)"

definition WS_RE :: regex where
  \<comment> \<open>\<open>\s+\<close>\<close>
  "WS_RE = Plus SPACE"

definition JINJA_RE :: regex where
  \<comment> \<open>\<open>({{.*?}}|{%.+?%})\<close> under DOTALL\<close>
  "JINJA_RE = Group 1 (Alt (seqs [lit ''{{'', LazyStar ANY, lit ''}}''])
                           (seqs [lit ''{%'', LazyPlus ANY, lit ''%}'']))"

definition norm :: "string \<Rightarrow> string" where
  "norm s = strip (re_sub WS_RE (\<lambda>m. '' '') s)"

definition has_jinja :: "string \<Rightarrow> bool" where
  "has_jinja s = (re_search JINJA_RE s \<noteq> None)"

definition strip_jinja :: "string \<Rightarrow> string" where
  "strip_jinja s = norm (re_sub JINJA_RE (\<lambda>m. []) s)"


section \<open>The document tree\<close>

text \<open>
  The tree that \<open>BeautifulSoup(html, "html.parser")\<close> builds.  A \<open>NavigableString\<close> is a text
  run; \<open>Comment\<close> stands for the string classes that \<open>get_text\<close> passes over (comments,
  declarations, processing instructions), which \<open>isinstance(x, NavigableString)\<close> accepts all the
  same; a \<open>Tag\<close> has its name, its attributes in source order and its contents.  The soup
  object itself is the list of the top-level nodes.  A node is addressed by its path, the child
  positions from the top.
\<close>

datatype node =
    NavigableString string
  | Comment string
  | Tag string "(string \<times> string) list" "node list"

type_synonym soup = "node list"
type_synonym path = "nat list"
type_synonym bytes = "nat list"

text \<open>
  The library capabilities that the program calls and does not define: the parser and the
  serializer of the tree (\<open>BeautifulSoup(s, "html.parser")\<close>, and \<open>str(soup)\<close> or
  \<open>tag.decode_contents()\<close> on a list of nodes), \<open>base64.b64decode\<close> and Pillow's \<open>Image.open\<close>.
  The last two give \<open>None\<close> where the Python raises.
\<close>

record lib =
  soup_parse :: "string \<Rightarrow> soup"
  soup_decode :: "node list \<Rightarrow> string"
  b64decode :: "string \<Rightarrow> bytes option"
  PIL_OK :: bool
  image_open :: "bytes \<Rightarrow> (int \<times> int) option"

fun is_Tag :: "node \<Rightarrow> bool" where
  "is_Tag (Tag nm as cs) = True"
| "is_Tag n = False"

fun tag_name_of :: "node \<Rightarrow> string" where
  "tag_name_of (Tag nm as cs) = nm"
| "tag_name_of n = []"

fun contents :: "node \<Rightarrow> node list" where
  "contents (Tag nm as cs) = cs"
| "contents n = []"

fun tag_get :: "node \<Rightarrow> string \<Rightarrow> string option" where
  \<comment> \<open>\<open>tag.get(attr)\<close>\<close>
  "tag_get (Tag nm as cs) k = map_of as k"
| "tag_get n k = None"

definition get_or_empty :: "node \<Rightarrow> string \<Rightarrow> string" where
  \<comment> \<open>\<open>tag.get(attr) or ""\<close>\<close>
  "get_or_empty t k = (case tag_get t k of None \<Rightarrow> [] | Some v \<Rightarrow> v)"

fun set_attr_list :: "string \<Rightarrow> string \<Rightarrow> (string \<times> string) list \<Rightarrow> (string \<times> string) list" where
  "set_attr_list k v [] = [(k, v)]"
| "set_attr_list k v ((k', v') # as) =
     (if k' = k then (k, v) # as else (k', v') # set_attr_list k v as)"

fun set_attr :: "string \<Rightarrow> string \<Rightarrow> node \<Rightarrow> node" where
  \<comment> \<open>\<open>tag[k] = v\<close>\<close>
  "set_attr k v (Tag nm as cs) = Tag nm (set_attr_list k v as) cs"
| "set_attr k v n = n"

fun set_contents :: "node list \<Rightarrow> node \<Rightarrow> node" where
  \<comment> \<open>\<open>tag.clear()\<close> followed by appending the new children\<close>
  "set_contents new (Tag nm as cs) = Tag nm as new"
| "set_contents new n = n"

definition set_string :: "string \<Rightarrow> node \<Rightarrow> node" where
  \<comment> \<open>\<open>tag.string = s\<close>\<close>
  "set_string s t = set_contents [NavigableString s] t"

fun tag_string :: "node \<Rightarrow> string option" where
  \<comment> \<open>\<open>tag.string\<close>: the only child when it is a string, through a chain of only children\<close>
  "tag_string (Tag nm as [NavigableString s]) = Some s"
| "tag_string (Tag nm as [Comment s]) = Some s"
| "tag_string (Tag nm as [Tag nm' as' cs']) = tag_string (Tag nm' as' cs')"
| "tag_string n = None"

definition NONWS_RE :: regex where
  \<comment> \<open>\<open>(\S+)\<close>, by which the parser splits a \<open>class\<close> attribute into its list of classes\<close>
  "NONWS_RE = Group 1 (Plus (Chr (\<lambda>c. \<not> is_space c)))"

definition class_list :: "node \<Rightarrow> string list" where
  \<comment> \<open>\<open>tag.get("class", [])\<close>\<close>
  "class_list t = (case tag_get t ''class'' of None \<Rightarrow> [] | Some v \<Rightarrow> re_findall1 NONWS_RE v)"

definition class_str_of :: "node \<Rightarrow> string" where
  \<comment> \<open>\<open>" ".join(tag.get("class", []))\<close>\<close>
  "class_str_of t = join_with '' '' (class_list t)"

fun tags_from :: "nat \<Rightarrow> node list \<Rightarrow> (path \<times> node) list" where
  \<comment> \<open>every tag below a list of nodes, in document order (parents before children)\<close>
  "tags_from i [] = []"
| "tags_from i (NavigableString s # ns) = tags_from (Suc i) ns"
| "tags_from i (Comment s # ns) = tags_from (Suc i) ns"
| "tags_from i (Tag nm as cs # ns) =
     ([i], Tag nm as cs) # map (\<lambda>(p, t). (i # p, t)) (tags_from 0 cs) @ tags_from (Suc i) ns"

definition find_all :: "(node \<Rightarrow> bool) \<Rightarrow> soup \<Rightarrow> (path \<times> node) list" where
  \<comment> \<open>\<open>soup.find_all(...)\<close>: the tags that satisfy the test, each with its path\<close>
  "find_all P soup = filter (\<lambda>(p, t). P t) (tags_from 0 soup)"

definition find_first :: "(node \<Rightarrow> bool) \<Rightarrow> soup \<Rightarrow> (path \<times> node) option" where
  \<comment> \<open>\<open>soup.find(...)\<close>\<close>
  "find_first P soup = (case find_all P soup of [] \<Rightarrow> None | x # _ \<Rightarrow> Some x)"

fun update_at :: "path \<Rightarrow> (node \<Rightarrow> node) \<Rightarrow> node list \<Rightarrow> node list" where
  \<comment> \<open>the tree with the node at a path changed in place\<close>
  "update_at [] f ns = ns"
| "update_at [i] f ns = (if i < length ns then ns[i := f (ns ! i)] else ns)"
| "update_at (i # j # p) f ns =
     (if i < length ns
      then ns[i := (case ns ! i of Tag nm as cs \<Rightarrow> Tag nm as (update_at (j # p) f cs) | n \<Rightarrow> n)]
      else ns)"

fun decompose_all :: "string list \<Rightarrow> node list \<Rightarrow> node list" where
  \<comment> \<open>\<open>for bad in soup.find_all(names): bad.decompose()\<close>: every subtree under such a tag is gone\<close>
  "decompose_all names [] = []"
| "decompose_all names (Tag nm as cs # ns) =
     (if nm \<in> set names then decompose_all names ns
      else Tag nm as (decompose_all names cs) # decompose_all names ns)"
| "decompose_all names (n # ns) = n # decompose_all names ns"

fun strings_from :: "bool \<Rightarrow> node list \<Rightarrow> string list" where
  \<comment> \<open>the text runs below a list of nodes in document order; with the flag set, the runs inside
      \<open>style\<close>, \<open>script\<close> and \<open>template\<close> (string classes of their own) are left out\<close>
  "strings_from plain [] = []"
| "strings_from plain (NavigableString s # ns) = s # strings_from plain ns"
| "strings_from plain (Comment s # ns) = strings_from plain ns"
| "strings_from plain (Tag nm as cs # ns) =
     (if plain \<and> nm \<in> set [''style'', ''script'', ''template''] then []
      else strings_from plain cs) @ strings_from plain ns"

definition get_text_strip :: "string \<Rightarrow> soup \<Rightarrow> string" where
  \<comment> \<open>\<open>soup.get_text(sep, strip=True)\<close>\<close>
  "get_text_strip sep soup =
     join_with sep (filter (\<lambda>s. s \<noteq> []) (map strip (strings_from True soup)))"

definition style_get_text :: "node \<Rightarrow> string" where
  \<comment> \<open>\<open>st.get_text()\<close> on a \<open>style\<close> tag: its stylesheet text\<close>
  "style_get_text st = concat (strings_from False (contents st))"


section \<open>Texts\<close>

definition SKIP_TAGS :: "string list" where
  "SKIP_TAGS = [''style'', ''script'', ''svg'', ''head'']"

definition CANDIDATE_TAGS :: "string list" where
  "CANDIDATE_TAGS = [''h1'', ''h2'', ''h3'', ''p'', ''span'', ''div'']"

definition STATUSES :: "string list" where
  "STATUSES = [''Platinum'', ''Gold'', ''Silver'', ''Bronze'']"

record TextNodeRef =
  key :: string
  display :: string
  kind :: string
  tag_name :: string
  class_str :: string
  occurrence :: nat
  original_text :: string

subsection \<open>Printing and reading integers\<close>

definition digit_char :: "nat \<Rightarrow> char" where
  "digit_char d = char_of (48 + d)"

fun show_nat :: "nat \<Rightarrow> string" where
  \<comment> \<open>\<open>str(n)\<close> for \<open>n \<ge> 0\<close>\<close>
  "show_nat n = (if n < 10 then [digit_char n] else show_nat (n div 10) @ [digit_char (n mod 10)])"

declare show_nat.simps [simp del]

definition is_digit :: "char \<Rightarrow> bool" where
  "is_digit c = (48 \<le> (of_char c :: nat) \<and> (of_char c :: nat) \<le> 57)"

definition digit_val :: "char \<Rightarrow> nat" where
  "digit_val c = of_char c - 48"

fun parse_digits :: "nat \<Rightarrow> string \<Rightarrow> nat option" where
  \<comment> \<open>the rest of a decimal literal after a digit: digits, single underscores between them\<close>
  "parse_digits acc [] = Some acc"
| "parse_digits acc (c # cs) =
     (if is_digit c then parse_digits (10 * acc + digit_val c) cs
      else if c = CHR ''_'' then
        (case cs of [] \<Rightarrow> None
         | d # ds \<Rightarrow> if is_digit d then parse_digits (10 * acc + digit_val d) ds else None)
      else None)"

definition py_int :: "string \<Rightarrow> int option" where
  \<comment> \<open>\<open>int(s)\<close>, \<open>None\<close> where it raises ValueError: surrounding whitespace, a sign, a decimal
      literal; more than 4300 digits are refused (the interpreter's limit on conversions)\<close>
  "py_int s =
     (let t = strip s;
          neg = (case t of [] \<Rightarrow> False | c # _ \<Rightarrow> c = CHR ''-'');
          u = (case t of [] \<Rightarrow> [] | c # cs \<Rightarrow> if c = CHR ''-'' \<or> c = CHR ''+'' then cs else t)
      in case u of [] \<Rightarrow> None
         | c # cs \<Rightarrow>
             if is_digit c \<and> length (filter is_digit u) \<le> 4300
             then map_option (\<lambda>n. if neg then - int n else int n) (parse_digits (digit_val c) cs)
             else None)"

fun split_max :: "char \<Rightarrow> nat \<Rightarrow> string \<Rightarrow> string list" where
  \<comment> \<open>\<open>s.split(sep, n)\<close> for a separator of one character\<close>
  "split_max sep n [] = [[]]"
| "split_max sep n (c # cs) =
     (if c = sep \<and> 0 < n then [] # split_max sep (n - 1) cs
      else (case split_max sep n cs of [] \<Rightarrow> [[c]] | x # xs \<Rightarrow> (c # x) # xs))"

subsection \<open>The status container\<close>

definition DQUOTE :: string where
  "DQUOTE = [CHR 0x22]"

definition status_directive :: "nat \<Rightarrow> string \<Rightarrow> regex" where
  \<comment> \<open>\<open>{%\s*(if|elif)\s+status\s*==\s*"\<close> + \<open>re.escape(status)\<close> + \<open>"\s*%}\s*\<close> under IGNORECASE;
      \<open>k\<close> is the number of the group \<open>(if|elif)\<close>\<close>
  "status_directive k status =
     seqs [lit ''{%'', Star SPACE, Group k (Alt (lit_ci ''if'') (lit_ci ''elif'')), Plus SPACE,
           lit_ci ''status'', Star SPACE, lit ''=='', Star SPACE,
           lit DQUOTE, lit_ci status, lit DQUOTE, Star SPACE, lit ''%}'', Star SPACE]"

definition next_directive :: "nat \<Rightarrow> regex" where
  \<comment> \<open>\<open>{%\s*(elif|endif)\b\<close> under IGNORECASE\<close>
  "next_directive k =
     seqs [lit ''{%'', Star SPACE, Group k (Alt (lit_ci ''elif'') (lit_ci ''endif'')), WordBoundary]"

definition status_pattern :: "string \<Rightarrow> regex" where
  \<comment> \<open>the pattern of \<open>_extract_status_texts_from_p_status\<close>; group 2 is the branch body\<close>
  "status_pattern status =
     seqs [status_directive 1 status, Group 2 (LazyStar ANY), Ahead (next_directive 3)]"

definition status_pat :: "string \<Rightarrow> regex" where
  \<comment> \<open>the pattern of \<open>replace_block\<close>; group 1 is the directive with the whitespace after it\<close>
  "status_pat status =
     seqs [Group 1 (status_directive 2 status), Group 3 (LazyStar ANY),
           Ahead (Group 4 (next_directive 5))]"

definition is_p_status :: "node \<Rightarrow> bool" where
  \<comment> \<open>the test of \<open>soup.find("p", class_="status")\<close>\<close>
  "is_p_status t = (tag_name_of t = ''p'' \<and> ''status'' \<in> set (class_list t))"

definition extract_status_texts_from_p_status :: "lib \<Rightarrow> string \<Rightarrow> (string \<times> string) list" where
  \<comment> \<open>the dictionary \<open>out\<close> as the list of its items, in insertion order\<close>
  "extract_status_texts_from_p_status L html =
     (case find_first is_p_status (soup_parse L html) of
        None \<Rightarrow> []
      | Some (pth, p) \<Rightarrow>
          (let inner = soup_decode L (contents p) in
           concat (map (\<lambda>status.
             (case re_search (status_pattern status) inner of
                None \<Rightarrow> []
              | Some (i, m) \<Rightarrow>
                  (let block = group 2 m;
                       text = norm (get_text_strip '' '' (soup_parse L block))
                   in if text \<noteq> [] then [(status, text)] else []))) STATUSES)))"

definition PAD :: string where
  \<comment> \<open>a line feed and sixteen spaces\<close>
  "PAD = CHR 0x0A # replicate 16 CHR '' ''"

definition replace_block :: "string \<Rightarrow> string \<Rightarrow> string \<Rightarrow> string" where
  "replace_block status new_text inner_html =
     re_sub_once (status_pat status) (\<lambda>m. group 1 m @ PAD @ new_text @ PAD) inner_html"

fun status_loop :: "(string \<times> string) list \<Rightarrow> string \<Rightarrow> string" where
  \<comment> \<open>\<open>for status, new_text in status_edits.items(): ...\<close>\<close>
  "status_loop [] inner = inner"
| "status_loop ((status, new_text) # es) inner =
     (let t = norm new_text in
      if t = [] then status_loop es inner else status_loop es (replace_block status t inner))"

definition apply_status_edits :: "lib \<Rightarrow> string \<Rightarrow> (string \<times> string) list \<Rightarrow> string" where
  "apply_status_edits L html status_edits =
     (let soup = soup_parse L html in
      case find_first is_p_status soup of
        None \<Rightarrow> soup_decode L soup
      | Some (pth, p) \<Rightarrow>
          (let inner = status_loop status_edits (soup_decode L (contents p))
           in soup_decode L (update_at pth (set_contents (soup_parse L inner)) soup)))"

subsection \<open>Plain text nodes\<close>

definition leaf_string :: "node \<Rightarrow> string option" where
  \<comment> \<open>the two tests that open both scanning loops: no child is a tag, and \<open>tag.string\<close> is a
      non-empty string\<close>
  "leaf_string t =
     (if list_ex is_Tag (contents t) then None
      else (case tag_string t of None \<Rightarrow> None | Some s \<Rightarrow> if s = [] then None else Some s))"

definition is_candidate_tag :: "node \<Rightarrow> bool" where
  "is_candidate_tag t = (tag_name_of t \<in> set CANDIDATE_TAGS)"

definition extract_candidate :: "node \<Rightarrow> (string \<times> string \<times> string) option" where
  \<comment> \<open>the body of the scanning loop of \<open>extract_text_nodes\<close>: the triple it appends, if any\<close>
  "extract_candidate t =
     (case leaf_string t of
        None \<Rightarrow> None
      | Some raw \<Rightarrow>
          (let text = norm raw in
           if text = [] then None
           else if has_jinja text then
             (let hard = strip_jinja text in
              if hard = [] then None else Some (tag_name_of t, class_str_of t, hard))
           else Some (tag_name_of t, class_str_of t, text)))"

definition candidates :: "soup \<Rightarrow> (string \<times> string \<times> string) list" where
  "candidates soup =
     List.map_filter (\<lambda>(p, t). extract_candidate t)
       (find_all is_candidate_tag (decompose_all SKIP_TAGS soup))"

definition text_key :: "string \<Rightarrow> string \<Rightarrow> nat \<Rightarrow> string" where
  "text_key tn cl occ = ''TEXT|'' @ tn @ ''|'' @ cl @ ''|'' @ show_nat occ"

fun number_nodes :: "(string \<times> string \<Rightarrow> nat) \<Rightarrow> (string \<times> string \<times> string) list \<Rightarrow> TextNodeRef list" where
  \<comment> \<open>the numbering loop; the dictionary \<open>counters\<close> is a function that is 0 off its keys\<close>
  "number_nodes counters [] = []"
| "number_nodes counters ((tn, cl, extracted_text) # cs) =
     (let occ = counters (tn, cl) + 1 in
      \<lparr>key = text_key tn cl occ, display = extracted_text, kind = ''text'', tag_name = tn,
        class_str = cl, occurrence = occ, original_text = extracted_text\<rparr>
      # number_nodes (counters((tn, cl) := occ)) cs)"

definition status_node :: "string \<Rightarrow> string \<Rightarrow> TextNodeRef" where
  "status_node st text =
     \<lparr>key = ''STATUS|'' @ st, display = text, kind = ''status'', tag_name = ''p'',
      class_str = ''status'', occurrence = 1, original_text = text\<rparr>"

definition status_nodes_of :: "(string \<times> string) list \<Rightarrow> TextNodeRef list" where
  \<comment> \<open>\<open>for st in STATUSES: if st in status_texts: ...\<close>\<close>
  "status_nodes_of status_texts =
     concat (map (\<lambda>st. case map_of status_texts st of None \<Rightarrow> [] | Some text \<Rightarrow> [status_node st text])
                 STATUSES)"

definition plain_nodes :: "soup \<Rightarrow> TextNodeRef list" where
  "plain_nodes soup = number_nodes (\<lambda>k. 0) (candidates soup)"

definition extract_text_nodes :: "lib \<Rightarrow> string \<Rightarrow> TextNodeRef list" where
  "extract_text_nodes L html =
     (let status_nodes = status_nodes_of (extract_status_texts_from_p_status L html)
      in plain_nodes (soup_parse L html) @ status_nodes)"

subsection \<open>Applying text edits\<close>

fun setdefault_append :: "'k \<Rightarrow> 'v \<Rightarrow> ('k \<times> 'v list) list \<Rightarrow> ('k \<times> 'v list) list" where
  \<comment> \<open>\<open>index.setdefault(k, []).append(v)\<close>\<close>
  "setdefault_append k v [] = [(k, [v])]"
| "setdefault_append k v ((k', vs) # kvs) =
     (if k' = k then (k', vs @ [v]) # kvs else (k', vs) # setdefault_append k v kvs)"

definition indexable :: "node \<Rightarrow> bool" where
  \<comment> \<open>the tests of the indexing loop of \<open>apply_text_edits\<close>\<close>
  "indexable t = (case leaf_string t of None \<Rightarrow> False | Some raw \<Rightarrow> norm raw \<noteq> [])"

definition build_index :: "soup \<Rightarrow> ((string \<times> string) \<times> path list) list" where
  \<comment> \<open>the dictionary \<open>index\<close>; a tag object is held as its path\<close>
  "build_index soup =
     foldl (\<lambda>index (p, t).
              if indexable t then setdefault_append (tag_name_of t, class_str_of t) p index
              else index)
           [] (find_all is_candidate_tag soup)"

definition index_get :: "((string \<times> string) \<times> path list) list \<Rightarrow> string \<times> string \<Rightarrow> path list" where
  \<comment> \<open>\<open>index.get(k, [])\<close>\<close>
  "index_get index k = (case map_of index k of None \<Rightarrow> [] | Some v \<Rightarrow> v)"

definition retext :: "string \<Rightarrow> node \<Rightarrow> node" where
  \<comment> \<open>what one edit does to the tag it selected\<close>
  "retext new_text t =
     (let old_raw = (case tag_string t of None \<Rightarrow> [] | Some s \<Rightarrow> s) in
      if has_jinja old_raw then
        (let old_label = strip_jinja old_raw in
         if old_label \<noteq> [] then
           set_string (norm new_text @ replace_first old_label [] old_raw) t
         else t)
      else set_string (norm new_text) t)"

definition text_edit :: "((string \<times> string) \<times> path list) list \<Rightarrow> soup \<Rightarrow> string \<times> string \<Rightarrow> soup" where
  \<comment> \<open>one round of the first loop over \<open>edits.items()\<close>\<close>
  "text_edit index soup e =
     (case e of (k, new_text) \<Rightarrow>
      if \<not> starts_with ''TEXT|'' k then soup
      else (let parts = split_max CHR ''|'' 3 k in
        if length parts \<noteq> 4 then soup
        else (case py_int (parts ! 3) of
          None \<Rightarrow> soup
        | Some occ \<Rightarrow>
            (let tags = index_get index (parts ! 1, parts ! 2) in
             if \<not> (1 \<le> occ \<and> occ \<le> int (length tags)) then soup
             else update_at (tags ! nat (occ - 1)) (retext new_text) soup))))"

definition apply_text_part :: "soup \<Rightarrow> (string \<times> string) list \<Rightarrow> soup" where
  \<comment> \<open>the tree after the first loop\<close>
  "apply_text_part soup edits = foldl (text_edit (build_index soup)) soup edits"

definition collect_status_edits :: "(string \<times> string) list \<Rightarrow> (string \<times> string) list" where
  \<comment> \<open>the dictionary \<open>status_edits\<close> of the second loop\<close>
  "collect_status_edits edits =
     map (\<lambda>(k, new_text). (split_max CHR ''|'' 1 k ! 1, norm new_text))
         (filter (\<lambda>(k, new_text). starts_with ''STATUS|'' k) edits)"

definition apply_text_edits :: "lib \<Rightarrow> string \<Rightarrow> (string \<times> string) list \<Rightarrow> string" where
  \<comment> \<open>the dictionary \<open>edits\<close> is the list of its items, in insertion order\<close>
  "apply_text_edits L html edits =
     (let soup = apply_text_part (soup_parse L html) edits;
          status_edits = collect_status_edits edits;
          out_html = soup_decode L soup
      in if status_edits \<noteq> [] then apply_status_edits L out_html status_edits else out_html)"


section \<open>Images\<close>

definition DATA_URL_RE :: regex where
  \<comment> \<open>\<open>^data:(image/(png|jpeg|jpg));base64,(.+)$\<close> under IGNORECASE and DOTALL\<close>
  "DATA_URL_RE =
     seqs [Bol, lit_ci ''data:'',
           Group 1 (Seq (lit_ci ''image/'')
                        (Group 2 (Alt (lit_ci ''png'') (Alt (lit_ci ''jpeg'') (lit_ci ''jpg''))))),
           lit_ci '';base64,'', Group 3 (Plus ANY), Eol]"

definition is_quote :: "char \<Rightarrow> bool" where
  "is_quote c = (c = CHR 0x22 \<or> c = CHR 0x27)"

definition BG_URL_RE :: regex where
  \<comment> \<open>\<open>(?:background-image|background)\s*:\s*[^;]*url\(\s*["']?([^"')]+)["']?\s*\)\<close>
      under IGNORECASE\<close>
  "BG_URL_RE =
     seqs [Alt (lit_ci ''background-image'') (lit_ci ''background''), Star SPACE, lit '':'',
           Star SPACE, Star (Chr (\<lambda>c. c \<noteq> CHR '';'')), lit_ci ''url('', Star SPACE,
           Opt (Chr is_quote), Group 1 (Plus (Chr (\<lambda>c. \<not> is_quote c \<and> c \<noteq> CHR '')''))),
           Opt (Chr is_quote), Star SPACE, lit '')'']"

record ImageLocator =
  loc_kind :: string  \<comment> \<open>the field \<open>kind\<close>: "img", "inline_style" or "style_tag"\<close>
  loc_a :: int        \<comment> \<open>the field \<open>a\<close>\<close>
  loc_b :: int        \<comment> \<open>the field \<open>b\<close>\<close>

record ImageEntry =
  img_id :: string
  source :: string
  mime :: string
  fmt :: string
  width :: "int option"
  height :: "int option"
  bytes_data :: "bytes option"
  hint :: string
  locator :: ImageLocator

definition detect_size_from_bytes :: "lib \<Rightarrow> bytes \<Rightarrow> int option \<times> int option" where
  "detect_size_from_bytes L bs =
     (if \<not> PIL_OK L then (None, None)
      else (case image_open L bs of
              Some (w, h) \<Rightarrow> (Some w, Some h)
            | None \<Rightarrow> (None, None)))"

definition image_entry :: "lib \<Rightarrow> string \<Rightarrow> string \<Rightarrow> string \<Rightarrow> ImageLocator \<Rightarrow> ImageEntry" where
  \<comment> \<open>the entry that each of the three passes appends for a non-empty URL \<open>u\<close>\<close>
  "image_entry L iid src_kind u loc =
     (case re_match DATA_URL_RE u of
        Some m \<Rightarrow>
          (let mime' = lower_str (group 1 m);
               fmt' = (if contains_str ''jpeg'' mime' \<or> contains_str ''jpg'' mime'
                       then ''jpg'' else ''png'');
               b64 = re_sub WS_RE (\<lambda>m. []) (group 3 m);
               data = (case b64decode L b64 of Some d \<Rightarrow> d | None \<Rightarrow> []);
               wh = (if data \<noteq> [] then detect_size_from_bytes L data else (None, None))
           in \<lparr>img_id = iid, source = src_kind, mime = mime', fmt = fmt', width = fst wh,
               height = snd wh, bytes_data = Some data, hint = ''(data-url)'', locator = loc\<rparr>)
      | None \<Rightarrow>
          \<lparr>img_id = iid, source = src_kind, mime = ''image/unknown'', fmt = ''?'', width = None,
           height = None, bytes_data = None, hint = u, locator = loc\<rparr>)"

definition image_id :: "nat \<Rightarrow> string" where
  \<comment> \<open>\<open>f"IMG{counter:03d}"\<close>\<close>
  "image_id counter =
     ''IMG'' @ replicate (3 - length (show_nat counter)) CHR ''0'' @ show_nat counter"

fun enumerate_from :: "nat \<Rightarrow> 'a list \<Rightarrow> (nat \<times> 'a) list" where
  "enumerate_from i [] = []"
| "enumerate_from i (x # xs) = (i, x) # enumerate_from (Suc i) xs"

definition is_img :: "node \<Rightarrow> bool" where
  "is_img t = (tag_name_of t = ''img'')"

definition has_style :: "node \<Rightarrow> bool" where
  \<comment> \<open>the test of \<open>find_all(style=True)\<close>\<close>
  "has_style t = (tag_get t ''style'' \<noteq> None)"

definition is_style_block :: "node \<Rightarrow> bool" where
  "is_style_block t = (tag_name_of t = ''style'')"

text \<open>The state of the three loops is the pair of \<open>counter\<close> and \<open>out\<close>.\<close>

type_synonym scan = "nat \<times> ImageEntry list"

definition img_step :: "lib \<Rightarrow> scan \<Rightarrow> nat \<times> node \<Rightarrow> scan" where
  "img_step L st x =
     (case st of (counter, out) \<Rightarrow> case x of (idx, img) \<Rightarrow>
      (let src = strip (get_or_empty img ''src'') in
       if src = [] then (counter, out)
       else (counter + 1,
             out @ [image_entry L (image_id (counter + 1)) ''img-tag'' src
                      \<lparr>loc_kind = ''img'', loc_a = int idx, loc_b = 0\<rparr>])))"

definition url_step :: "lib \<Rightarrow> string \<Rightarrow> nat \<Rightarrow> scan \<Rightarrow> nat \<times> string \<Rightarrow> scan" where
  \<comment> \<open>the inner loop over the URLs of one style text\<close>
  "url_step L k tag_idx st x =
     (case st of (counter, out) \<Rightarrow> case x of (match_idx, u0) \<Rightarrow>
      (let u = strip u0 in
       if u = [] then (counter, out)
       else (counter + 1,
             out @ [image_entry L (image_id (counter + 1)) ''background-image'' u
                      \<lparr>loc_kind = k, loc_a = int tag_idx, loc_b = int match_idx\<rparr>])))"

definition inline_step :: "lib \<Rightarrow> scan \<Rightarrow> nat \<times> node \<Rightarrow> scan" where
  "inline_step L st x =
     (case x of (tag_idx, t) \<Rightarrow>
      (let style = get_or_empty t ''style''; urls = re_findall1 BG_URL_RE style
       in foldl (url_step L ''inline_style'' tag_idx) st (enumerate_from 0 urls)))"

definition block_step :: "lib \<Rightarrow> scan \<Rightarrow> nat \<times> node \<Rightarrow> scan" where
  "block_step L st x =
     (case x of (st_idx, blk) \<Rightarrow>
      (let css = style_get_text blk; urls = re_findall1 BG_URL_RE css
       in foldl (url_step L ''style_tag'' st_idx) st (enumerate_from 0 urls)))"

definition extract_images_soup :: "lib \<Rightarrow> soup \<Rightarrow> ImageEntry list" where
  "extract_images_soup L soup =
     (let imgs = map snd (find_all is_img soup);
          s1 = foldl (img_step L) (0, []) (enumerate_from 0 imgs);
          style_tags = map snd (find_all has_style soup);
          s2 = foldl (inline_step L) s1 (enumerate_from 0 style_tags);
          style_blocks = map snd (find_all is_style_block soup);
          s3 = foldl (block_step L) s2 (enumerate_from 0 style_blocks)
      in snd s3)"

definition extract_images :: "lib \<Rightarrow> string \<Rightarrow> ImageEntry list" where
  "extract_images L html = extract_images_soup L (soup_parse L html)"

datatype error =
    ImgIndexError        \<comment> \<open>ValueError: no \<open><img>\<close> at the index\<close>
  | StyledTagIndexError  \<comment> \<open>ValueError: no tag with \<open>style=\<close> at the index\<close>
  | UrlIndexError        \<comment> \<open>ValueError: no \<open>url(...)\<close> at the index of the inline style\<close>
  | StyleBlockIndexError \<comment> \<open>ValueError: no \<open><style>\<close> at the index\<close>
  | CssUrlIndexError     \<comment> \<open>ValueError: no \<open>url(...)\<close> at the index of the CSS\<close>
  | UnknownKindError     \<comment> \<open>ValueError: unknown \<open>locator.kind\<close>\<close>

definition replace_image_soup :: "soup \<Rightarrow> ImageLocator \<Rightarrow> string \<Rightarrow> error + soup" where
  \<comment> \<open>\<open>replace_image_in_html\<close> between the parse and \<open>str(soup)\<close>\<close>
  "replace_image_soup soup loc new_data_url =
     (if loc_kind loc = ''img'' then
        (let imgs = find_all is_img soup in
         if loc_a loc < 0 \<or> loc_a loc \<ge> int (length imgs) then Inl ImgIndexError
         else Inr (update_at (fst (imgs ! nat (loc_a loc))) (set_attr ''src'' new_data_url) soup))
      else if loc_kind loc = ''inline_style'' then
        (let tags = find_all has_style soup in
         if loc_a loc < 0 \<or> loc_a loc \<ge> int (length tags) then Inl StyledTagIndexError
         else (let tg = tags ! nat (loc_a loc);
                   style = get_or_empty (snd tg) ''style'';
                   urls = re_findall1 BG_URL_RE style
               in if loc_b loc < 0 \<or> loc_b loc \<ge> int (length urls) then Inl UrlIndexError
                  else (let old_url = urls ! nat (loc_b loc);
                            new_style = replace_first old_url new_data_url style
                        in Inr (update_at (fst tg) (set_attr ''style'' new_style) soup))))
      else if loc_kind loc = ''style_tag'' then
        (let style_blocks = find_all is_style_block soup in
         if loc_a loc < 0 \<or> loc_a loc \<ge> int (length style_blocks) then Inl StyleBlockIndexError
         else (let blk = style_blocks ! nat (loc_a loc);
                   css = style_get_text (snd blk);
                   urls = re_findall1 BG_URL_RE css
               in if loc_b loc < 0 \<or> loc_b loc \<ge> int (length urls) then Inl CssUrlIndexError
                  else (let old_url = urls ! nat (loc_b loc);
                            new_css = replace_first old_url new_data_url css
                        in Inr (update_at (fst blk) (set_string new_css) soup))))
      else Inl UnknownKindError)"

definition replace_image_in_html :: "lib \<Rightarrow> string \<Rightarrow> ImageLocator \<Rightarrow> string \<Rightarrow> error + string" where
  "replace_image_in_html L html loc new_data_url =
     (case replace_image_soup (soup_parse L html) loc new_data_url of
        Inl e \<Rightarrow> Inl e
      | Inr soup \<Rightarrow> Inr (soup_decode L soup))"


section \<open>A reference library for concrete documents\<close>

text \<open>
  The theorems below hold for every library \<open>L\<close>.  To run the program on concrete documents, this
  section gives one library: a serializer that prints a tree the way \<open>str(soup)\<close> does, and a
  parser for well-formed markup (tags closed in order, attribute values in quotes and without
  \<open>>\<close>, no comments, the entities \<open>&amp;\<close>, \<open>&lt;\<close> and \<open>&gt;\<close> only), on which it builds the tree
  that \<open>html.parser\<close> builds; a decoder of canonical base64; and a probe that reads the size of a
  PNG image from its header.
\<close>

fun escape_text :: "string \<Rightarrow> string" where
  "escape_text [] = []"
| "escape_text (c # cs) =
     (if c = CHR ''&'' then ''&amp;'' else if c = CHR ''<'' then ''&lt;''
      else if c = CHR ''>'' then ''&gt;'' else [c]) @ escape_text cs"

fun unescape_text :: "string \<Rightarrow> string" where
  "unescape_text [] = []"
| "unescape_text (c # cs) =
     (if starts_with ''&amp;'' (c # cs) then CHR ''&'' # drop 4 (unescape_text cs)
      else if starts_with ''&lt;'' (c # cs) then CHR ''<'' # drop 3 (unescape_text cs)
      else if starts_with ''&gt;'' (c # cs) then CHR ''>'' # drop 3 (unescape_text cs)
      else c # unescape_text cs)"

definition VOID_TAGS :: "string list" where
  "VOID_TAGS = [''area'', ''base'', ''br'', ''col'', ''embed'', ''hr'', ''img'', ''input'', ''link'',
                ''meta'', ''source'', ''track'', ''wbr'']"

fun demo_decode :: "node list \<Rightarrow> string" where
  "demo_decode [] = []"
| "demo_decode (NavigableString s # ns) = escape_text s @ demo_decode ns"
| "demo_decode (Comment s # ns) = ''<!--'' @ s @ ''-->'' @ demo_decode ns"
| "demo_decode (Tag nm as cs # ns) =
     ''<'' @ nm @ concat (map (\<lambda>(k, v). '' '' @ k @ ''='' @ DQUOTE @ escape_text v @ DQUOTE) as) @
     (if nm \<in> set VOID_TAGS \<and> cs = [] then ''/>'' else ''>'' @ demo_decode cs @ ''</'' @ nm @ ''>'') @
     demo_decode ns"

datatype token = TText string | TOpen string "(string \<times> string) list" | TClose string

datatype attr_state =
    ASkip                      \<comment> \<open>between attributes\<close>
  | AName string               \<comment> \<open>in a name, read so far (reversed)\<close>
  | AValue string string char  \<comment> \<open>in a quoted value: name, value so far (reversed), the quote\<close>

fun attrs_scan :: "attr_state \<Rightarrow> string \<Rightarrow> (string \<times> string) list" where
  "attrs_scan ASkip [] = []"
| "attrs_scan ASkip (c # cs) =
     (if is_space c \<or> c = CHR ''/'' then attrs_scan ASkip cs else attrs_scan (AName [c]) cs)"
| "attrs_scan (AName n) [] = [(rev n, [])]"
| "attrs_scan (AName n) (c # cs) =
     (if c = CHR ''='' then
        (case cs of [] \<Rightarrow> [(rev n, [])]
         | q # r \<Rightarrow> if is_quote q then attrs_scan (AValue n [] q) r else [(rev n, [])])
      else if is_space c then (rev n, []) # attrs_scan ASkip cs
      else attrs_scan (AName (c # n)) cs)"
| "attrs_scan (AValue n v q) [] = [(rev n, unescape_text (rev v))]"
| "attrs_scan (AValue n v q) (c # cs) =
     (if c = q then (rev n, unescape_text (rev v)) # attrs_scan ASkip cs
      else attrs_scan (AValue n (c # v) q) cs)"

definition tag_token :: "string \<Rightarrow> token" where
  \<comment> \<open>the token for the text between \<open><\<close> and \<open>>\<close>\<close>
  "tag_token s =
     (case s of
        [] \<Rightarrow> TText ''<>''
      | c # cs \<Rightarrow>
          if c = CHR ''/'' then TClose (lower_str (strip cs))
          else TOpen (lower_str (takeWhile (\<lambda>x. \<not> is_space x \<and> x \<noteq> CHR ''/'') s))
                     (attrs_scan ASkip (dropWhile (\<lambda>x. \<not> is_space x \<and> x \<noteq> CHR ''/'') s)))"

fun tokens :: "bool \<Rightarrow> string \<Rightarrow> string \<Rightarrow> token list" where
  \<comment> \<open>the flag says whether the scan is inside a tag; the second argument is the text read so
      far, reversed\<close>
  "tokens in_tag acc [] = (if acc = [] then [] else [TText (unescape_text (rev acc))])"
| "tokens in_tag acc (c # cs) =
     (if in_tag then
        (if c = CHR ''>'' then tag_token (rev acc) # tokens False [] cs
         else tokens True (c # acc) cs)
      else if c = CHR ''<'' then
        (if acc = [] then [] else [TText (unescape_text (rev acc))]) @ tokens True [] cs
      else tokens False (c # acc) cs)"

type_synonym open_tag = "string \<times> (string \<times> string) list \<times> node list"

fun add_node :: "node \<Rightarrow> open_tag list \<times> node list \<Rightarrow> open_tag list \<times> node list" where
  \<comment> \<open>a finished node becomes the last child of the innermost open tag\<close>
  "add_node n ([], acc) = ([], n # acc)"
| "add_node n ((nm, as, ch) # stk, acc) = ((nm, as, n # ch) # stk, acc)"

fun pop_to :: "string \<Rightarrow> open_tag list \<Rightarrow> node list \<Rightarrow> open_tag list \<times> node list" where
  \<comment> \<open>close the open tags down to the innermost one of the name\<close>
  "pop_to name [] acc = ([], acc)"
| "pop_to name [(nm, as, ch)] acc = ([], Tag nm as (rev ch) # acc)"
| "pop_to name ((nm, as, ch) # (nm', as', ch') # stk) acc =
     (if nm = name then ((nm', as', Tag nm as (rev ch) # ch') # stk, acc)
      else pop_to name ((nm', as', Tag nm as (rev ch) # ch') # stk) acc)"

fun close_all :: "open_tag list \<Rightarrow> node list \<Rightarrow> node list" where
  "close_all [] acc = rev acc"
| "close_all [(nm, as, ch)] acc = rev (Tag nm as (rev ch) # acc)"
| "close_all ((nm, as, ch) # (nm', as', ch') # stk) acc =
     close_all ((nm', as', Tag nm as (rev ch) # ch') # stk) acc"

fun build_tree :: "token list \<Rightarrow> open_tag list \<times> node list \<Rightarrow> node list" where
  "build_tree [] st = close_all (fst st) (snd st)"
| "build_tree (TText s # ts) st = build_tree ts (add_node (NavigableString s) st)"
| "build_tree (TOpen nm as # ts) st =
     (if nm \<in> set VOID_TAGS then build_tree ts (add_node (Tag nm as []) st)
      else build_tree ts ((nm, as, []) # fst st, snd st))"
| "build_tree (TClose nm # ts) st =
     (if nm \<in> set (map fst (fst st)) then build_tree ts (pop_to nm (fst st) (snd st))
      else build_tree ts st)"

definition demo_parse :: "string \<Rightarrow> soup" where
  "demo_parse html = build_tree (tokens False [] html) ([], [])"

definition b64_value :: "char \<Rightarrow> nat option" where
  "b64_value c = (let n = (of_char c :: nat) in
     if 65 \<le> n \<and> n \<le> 90 then Some (n - 65)
     else if 97 \<le> n \<and> n \<le> 122 then Some (n - 71)
     else if 48 \<le> n \<and> n \<le> 57 then Some (n + 4)
     else if c = CHR ''+'' then Some 62
     else if c = CHR ''/'' then Some 63
     else None)"

fun demo_b64decode :: "string \<Rightarrow> bytes option" where
  \<comment> \<open>groups of four characters, the last one padded with \<open>=\<close>; anything else fails\<close>
  "demo_b64decode [] = Some []"
| "demo_b64decode [c1, c2, c3, c4] =
     (case (b64_value c1, b64_value c2) of
        (Some v1, Some v2) \<Rightarrow>
          (if c3 = CHR ''='' \<and> c4 = CHR ''='' then Some [(v1 * 4 + v2 div 16) mod 256]
           else (case b64_value c3 of
                   None \<Rightarrow> None
                 | Some v3 \<Rightarrow>
                     if c4 = CHR ''='' then
                       Some [(v1 * 4 + v2 div 16) mod 256, (v2 * 16 + v3 div 4) mod 256]
                     else (case b64_value c4 of
                             None \<Rightarrow> None
                           | Some v4 \<Rightarrow>
                               Some [(v1 * 4 + v2 div 16) mod 256, (v2 * 16 + v3 div 4) mod 256,
                                     (v3 * 64 + v4) mod 256])))
      | _ \<Rightarrow> None)"
| "demo_b64decode (c1 # c2 # c3 # c4 # c5 # cs) =
     (case (b64_value c1, b64_value c2, b64_value c3, b64_value c4) of
        (Some v1, Some v2, Some v3, Some v4) \<Rightarrow>
          map_option (\<lambda>r. [(v1 * 4 + v2 div 16) mod 256, (v2 * 16 + v3 div 4) mod 256,
                            (v3 * 64 + v4) mod 256] @ r)
                     (demo_b64decode (c5 # cs))
      | _ \<Rightarrow> None)"
| "demo_b64decode cs = None"

definition PNG_SIGNATURE :: bytes where
  "PNG_SIGNATURE = [137, 80, 78, 71, 13, 10, 26, 10]"

definition be32 :: "bytes \<Rightarrow> int" where
  "be32 bs = int (foldl (\<lambda>acc x. acc * 256 + x) 0 bs)"

definition demo_image_open :: "bytes \<Rightarrow> (int \<times> int) option" where
  \<comment> \<open>the size fields of the IHDR chunk that follows the signature of a PNG file\<close>
  "demo_image_open bs =
     (if take 8 bs = PNG_SIGNATURE \<and> 24 \<le> length bs
      then Some (be32 (take 4 (drop 16 bs)), be32 (take 4 (drop 20 bs)))
      else None)"

definition demo_lib :: lib where
  "demo_lib = \<lparr>soup_parse = demo_parse, soup_decode = demo_decode, b64decode = demo_b64decode,
               PIL_OK = True, image_open = demo_image_open\<rparr>"


section \<open>Notions used by the statements\<close>

definition locator_in_range :: "soup \<Rightarrow> ImageLocator \<Rightarrow> bool" where
  \<comment> \<open>the range checks of \<open>replace_image_in_html\<close>, all passed: no \<open>raise\<close> is reached\<close>
  "locator_in_range soup loc =
     (if loc_kind loc = ''img'' then
        0 \<le> loc_a loc \<and> loc_a loc < int (length (find_all is_img soup))
      else if loc_kind loc = ''inline_style'' then
        0 \<le> loc_a loc \<and> loc_a loc < int (length (find_all has_style soup)) \<and>
        0 \<le> loc_b loc \<and>
        loc_b loc < int (length (re_findall1 BG_URL_RE
                      (get_or_empty (snd (find_all has_style soup ! nat (loc_a loc))) ''style'')))
      else if loc_kind loc = ''style_tag'' then
        0 \<le> loc_a loc \<and> loc_a loc < int (length (find_all is_style_block soup)) \<and>
        0 \<le> loc_b loc \<and>
        loc_b loc < int (length (re_findall1 BG_URL_RE
                      (style_get_text (snd (find_all is_style_block soup ! nat (loc_a loc))))))
      else False)"

type_synonym image_source = "string \<times> string \<times> ImageLocator"

definition url_sources :: "string \<Rightarrow> nat \<Rightarrow> string list \<Rightarrow> image_source list" where
  \<comment> \<open>the URLs of one style text that are not blank, each with its source kind and locator\<close>
  "url_sources k ti urls =
     concat (map (\<lambda>(mi, u). if strip u = [] then []
                    else [(''background-image'', strip u,
                           \<lparr>loc_kind = k, loc_a = int ti, loc_b = int mi\<rparr>)])
                 (enumerate_from 0 urls))"

definition image_sources :: "soup \<Rightarrow> image_source list" where
  \<comment> \<open>every image reference of a document that is not blank, in the order of the three passes\<close>
  "image_sources soup =
     concat (map (\<lambda>(i, t). if strip (get_or_empty t ''src'') = [] then []
                    else [(''img-tag'', strip (get_or_empty t ''src''),
                           \<lparr>loc_kind = ''img'', loc_a = int i, loc_b = 0\<rparr>)])
                 (enumerate_from 0 (map snd (find_all is_img soup))))
     @ concat (map (\<lambda>(ti, t). url_sources ''inline_style'' ti
                                 (re_findall1 BG_URL_RE (get_or_empty t ''style'')))
                 (enumerate_from 0 (map snd (find_all has_style soup))))
     @ concat (map (\<lambda>(ti, t). url_sources ''style_tag'' ti
                                 (re_findall1 BG_URL_RE (style_get_text t)))
                 (enumerate_from 0 (map snd (find_all is_style_block soup))))"

definition entries_of :: "lib \<Rightarrow> nat \<Rightarrow> image_source list \<Rightarrow> ImageEntry list" where
  \<comment> \<open>one entry per image reference, numbered from \<open>c + 1\<close>\<close>
  "entries_of L c srcs =
     map (\<lambda>(k, sk, u, loc). image_entry L (image_id (k + 1)) sk u loc) (enumerate_from c srcs)"



definition status_chain :: string where
  \<comment> \<open>the flat chain of the Gold and Silver branches\<close>
  "status_chain = ''{% if status == '' @ DQUOTE @ ''Gold'' @ DQUOTE @ '' %} Great job {% elif status == ''
                  @ DQUOTE @ ''Silver'' @ DQUOTE @ '' %} Good job {% endif %}''"

definition status_doc :: string where
  \<comment> \<open>a document with a heading and the status container that holds the chain\<close>
  "status_doc = ''<h1>Diploma</h1><p class='status'>'' @ status_chain @ ''</p>''"


section \<open>Template markers in plain text nodes\<close>

text \<open>
  C2, as stated: a candidate leaf whose raw text is \<open>Score: {{ value }}\<close> is excluded from the
  list of \<open>extract_text_nodes\<close> entirely.  It is not: the document \<open><p>Score: {{ value }}</p>\<close>
  yields one entry, whose display text is the label \<open>Score:\<close>.
\<close>

theorem C2_score_node_is_listed:
  "map display (extract_text_nodes demo_lib ''<p>Score: {{ value }}</p>'') = [''Score:'']"
  by code_simp


section \<open>The index of the patcher against the traversal of the extractor\<close>

text \<open>
  C1: the index that \<open>apply_text_edits\<close> rebuilds should list, per pair of tag name and class
  string, the nodes that \<open>extract_text_nodes\<close> numbered, in the same order.  The indexing loop
  has neither the removal of the \<open>style\<close>, \<open>script\<close>, \<open>svg\<close> and \<open>head\<close> subtrees nor the
  exclusion of the nodes made of template markers only, so it counts nodes that the extractor
  did not number.  In \<open><p>{{ name }}</p><p>Hello</p><p>World</p>\<close> the extractor gives \<open>World\<close>
  the address \<open>TEXT|p||2\<close>, and an edit at that address rewrites \<open>Hello\<close>; in
  \<open><svg><span>A</span></svg><span>B</span>\<close> it gives \<open>B\<close> the address \<open>TEXT|span||1\<close>, and an
  edit at that address rewrites the \<open>A\<close> inside the \<open>svg\<close>.
\<close>

theorem C1_address_resolves_to_another_node:
  "map (\<lambda>n. (key n, display n))
       (extract_text_nodes demo_lib ''<p>{{ name }}</p><p>Hello</p><p>World</p>'') =
     [(''TEXT|p||1'', ''Hello''), (''TEXT|p||2'', ''World'')]
   \<and> apply_text_edits demo_lib ''<p>{{ name }}</p><p>Hello</p><p>World</p>''
       [(''TEXT|p||2'', ''Earth'')] = ''<p>{{ name }}</p><p>Earth</p><p>World</p>''
   \<and> map (\<lambda>n. (key n, display n))
       (extract_text_nodes demo_lib ''<svg><span>A</span></svg><span>B</span>'') =
     [(''TEXT|span||1'', ''B'')]
   \<and> apply_text_edits demo_lib ''<svg><span>A</span></svg><span>B</span>''
       [(''TEXT|span||1'', ''C'')] = ''<svg><span>C</span></svg><span>B</span>''"
  by code_simp

section \<open>The order of the extracted text nodes\<close>

lemma number_nodes_kind: "list_all (\<lambda>n. kind n = ''text'') (number_nodes c cs)"
  by (induction cs arbitrary: c) (auto simp: Let_def)

lemma number_nodes_triples:
  "map (\<lambda>n. (tag_name n, class_str n, display n)) (number_nodes c cs) = cs"
  by (induction cs arbitrary: c) (auto simp: Let_def)

lemma status_nodes_kind: "list_all (\<lambda>n. kind n = ''status'') (status_nodes_of x)"
  by (simp add: status_nodes_of_def STATUSES_def status_node_def split: option.split)

lemma status_keys_subseq_aux:
  "subseq (map key (concat (map (\<lambda>st. case m st of None \<Rightarrow> [] | Some text \<Rightarrow> [status_node st text]) xs)))
          (map (\<lambda>st. ''STATUS|'' @ st) xs)"
  by (induction xs) (auto simp: status_node_def split: option.split)

lemma status_keys_subseq:
  "subseq (map key (status_nodes_of x)) (map (\<lambda>st. ''STATUS|'' @ st) STATUSES)"
  unfolding status_nodes_of_def by (rule status_keys_subseq_aux)

text \<open>
  C10: the list of \<open>extract_text_nodes\<close> is the plain entries followed by the status entries.
  The plain entries (kind \<open>text\<close> in the code) are the candidates in the order of the traversal
  of the document; the status entries carry keys that follow the order of the vocabulary
  Platinum, Gold, Silver, Bronze, whichever of them are present.
\<close>

theorem C10_plain_before_status:
  "\<exists>plain status.
     extract_text_nodes L html = plain @ status
   \<and> list_all (\<lambda>n. kind n = ''text'') plain
   \<and> map (\<lambda>n. (tag_name n, class_str n, display n)) plain = candidates (soup_parse L html)
   \<and> list_all (\<lambda>n. kind n = ''status'') status
   \<and> subseq (map key status)
             [''STATUS|Platinum'', ''STATUS|Gold'', ''STATUS|Silver'', ''STATUS|Bronze'']"
proof -
  let ?plain = "plain_nodes (soup_parse L html)"
  let ?status = "status_nodes_of (extract_status_texts_from_p_status L html)"
  have "extract_text_nodes L html = ?plain @ ?status"
    by (simp add: extract_text_nodes_def)
  moreover have "list_all (\<lambda>n. kind n = ''text'') ?plain"
    by (simp add: plain_nodes_def number_nodes_kind)
  moreover have "map (\<lambda>n. (tag_name n, class_str n, display n)) ?plain = candidates (soup_parse L html)"
    by (simp add: plain_nodes_def number_nodes_triples)
  moreover have "list_all (\<lambda>n. kind n = ''status'') ?status"
    by (rule status_nodes_kind)
  moreover have "subseq (map key ?status)
      [''STATUS|Platinum'', ''STATUS|Gold'', ''STATUS|Silver'', ''STATUS|Bronze'']"
    using status_keys_subseq [of "extract_status_texts_from_p_status L html"]
    by (simp add: STATUSES_def)
  ultimately show ?thesis by blast
qed


section \<open>The boundary of marker stripping\<close>

lemma filter_text_plain: "filter (\<lambda>n. kind n = ''text'') (number_nodes c cs) = number_nodes c cs"
  using number_nodes_kind[of c cs] by (simp add: list_all_iff)

lemma filter_text_status: "filter (\<lambda>n. kind n = ''text'') (status_nodes_of x) = []"
  using status_nodes_kind[of x] by (auto simp: list_all_iff filter_empty_conv)

lemma marker_texts:
  "norm ''Score: {{ value }}'' = ''Score: {{ value }}''" "has_jinja ''Score: {{ value }}''"
  "strip_jinja ''Score: {{ value }}'' = ''Score:''"
  "norm ''Label {{x}}'' = ''Label {{x}}''" "has_jinja ''Label {{x}}''"
  "strip_jinja ''Label {{x}}'' = ''Label''"
  "norm ''{{x}}'' = ''{{x}}''" "has_jinja ''{{x}}''" "strip_jinja ''{{x}}'' = []"
  by code_simp+

lemma in_map_filter:
  "x \<in> set xs \<Longrightarrow> f x = Some y \<Longrightarrow> y \<in> set (List.map_filter f xs)"
  by (induction xs) (auto split: option.split)

text \<open>
  C2, amended: a candidate leaf whose raw text is \<open>Score: {{ value }}\<close> is listed by
  \<open>extract_text_nodes\<close> with the display text \<open>Score:\<close>, the literal label that is left when the
  marker is stripped; likewise \<open>Label {{x}}\<close> is listed as \<open>Label\<close>; a leaf whose text is
  \<open>{{x}}\<close> alone is excluded.  This holds for every library, document, tag and class: the plain
  entries of the result are, in order, the results of the scanning step on the candidate tags
  outside the skipped subtrees; the step excludes a leaf exactly when its normalized text is
  empty or nothing is left of it without the markers, and otherwise lists it with the text that
  is left.
\<close>

theorem C2_candidate_leaf_boundary:
  "map (\<lambda>n. (tag_name n, class_str n, display n))
       (filter (\<lambda>n. kind n = ''text'') (extract_text_nodes L html)) =
     List.map_filter (\<lambda>(p, t). extract_candidate t)
       (find_all is_candidate_tag (decompose_all SKIP_TAGS (soup_parse L html)))
   \<and> (leaf_string t = Some raw \<longrightarrow>
        extract_candidate t =
          (if norm raw = [] \<or> (has_jinja (norm raw) \<and> strip_jinja (norm raw) = []) then None
           else Some (tag_name_of t, class_str_of t,
                      if has_jinja (norm raw) then strip_jinja (norm raw) else norm raw)))
   \<and> (leaf_string t = Some ''Score: {{ value }}'' \<longrightarrow>
        extract_candidate t = Some (tag_name_of t, class_str_of t, ''Score:''))
   \<and> (leaf_string t = Some ''Label {{x}}'' \<longrightarrow>
        extract_candidate t = Some (tag_name_of t, class_str_of t, ''Label''))
   \<and> (leaf_string t = Some ''{{x}}'' \<longrightarrow> extract_candidate t = None)
   \<and> ((pth, t) \<in> set (find_all is_candidate_tag (decompose_all SKIP_TAGS (soup_parse L html))) \<and>
       leaf_string t = Some ''Score: {{ value }}'' \<longrightarrow>
        (\<exists>n\<in>set (extract_text_nodes L html).
            kind n = ''text'' \<and> tag_name n = tag_name_of t \<and> class_str n = class_str_of t \<and>
            display n = ''Score:''))"
proof (intro conjI impI)
  show a: "map (\<lambda>n. (tag_name n, class_str n, display n))
       (filter (\<lambda>n. kind n = ''text'') (extract_text_nodes L html)) =
     List.map_filter (\<lambda>(p, t). extract_candidate t)
       (find_all is_candidate_tag (decompose_all SKIP_TAGS (soup_parse L html)))"
    by (simp add: extract_text_nodes_def plain_nodes_def filter_text_plain filter_text_status
        number_nodes_triples candidates_def)
  {
    assume "leaf_string t = Some raw"
    then show "extract_candidate t =
          (if norm raw = [] \<or> (has_jinja (norm raw) \<and> strip_jinja (norm raw) = []) then None
           else Some (tag_name_of t, class_str_of t,
                      if has_jinja (norm raw) then strip_jinja (norm raw) else norm raw))"
      by (simp add: extract_candidate_def Let_def)
  }
  {
    assume "leaf_string t = Some ''Score: {{ value }}''"
    then show "extract_candidate t = Some (tag_name_of t, class_str_of t, ''Score:'')"
      by (simp add: extract_candidate_def Let_def marker_texts)
  }
  {
    assume "leaf_string t = Some ''Label {{x}}''"
    then show "extract_candidate t = Some (tag_name_of t, class_str_of t, ''Label'')"
      by (simp add: extract_candidate_def Let_def marker_texts)
  }
  {
    assume "leaf_string t = Some ''{{x}}''"
    then show "extract_candidate t = None"
      by (simp add: extract_candidate_def Let_def marker_texts)
  }
  {
    assume h: "(pth, t) \<in> set (find_all is_candidate_tag (decompose_all SKIP_TAGS (soup_parse L html))) \<and>
       leaf_string t = Some ''Score: {{ value }}''"
    then have "extract_candidate t = Some (tag_name_of t, class_str_of t, ''Score:'')"
      by (simp add: extract_candidate_def Let_def marker_texts)
    with h have "(tag_name_of t, class_str_of t, ''Score:'') \<in>
        set (List.map_filter (\<lambda>(p, t). extract_candidate t)
          (find_all is_candidate_tag (decompose_all SKIP_TAGS (soup_parse L html))))"
      using in_map_filter[of "(pth, t)" _ "\<lambda>(p, t). extract_candidate t"] by simp
    then have "(tag_name_of t, class_str_of t, ''Score:'') \<in>
        set (map (\<lambda>n. (tag_name n, class_str n, display n))
          (filter (\<lambda>n. kind n = ''text'') (extract_text_nodes L html)))"
      by (simp only: a)
    then show "\<exists>n\<in>set (extract_text_nodes L html).
            kind n = ''text'' \<and> tag_name n = tag_name_of t \<and> class_str n = class_str_of t \<and>
            display n = ''Score:''"
      by auto
  }
qed

text \<open>
  Instances: a heading with a class inside a \<open>div\<close>, which is listed; a \<open>span\<close> that keeps
  its label; a cell that holds a marker alone.
\<close>

theorem C2_score_leaf_witness:
  "(\<exists>n\<in>set (extract_text_nodes demo_lib ''<div><h2 class='big'>Score: {{ value }}</h2></div>'').
      kind n = ''text'' \<and> tag_name n = ''h2'' \<and> class_str n = ''big'' \<and> display n = ''Score:'')
   \<and> extract_candidate (Tag ''span'' [] [NavigableString ''Label {{x}}'']) =
       Some (''span'', [], ''Label'')
   \<and> extract_candidate (Tag ''td'' [] [NavigableString ''{{x}}'']) = None"
proof -
  let ?t = "Tag ''h2'' [(''class'', ''big'')] [NavigableString ''Score: {{ value }}'']"
  have h: "([0, 0], ?t) \<in> set (find_all is_candidate_tag (decompose_all SKIP_TAGS
              (soup_parse demo_lib ''<div><h2 class='big'>Score: {{ value }}</h2></div>''))) \<and>
       leaf_string ?t = Some ''Score: {{ value }}''"
    by code_simp
  have n: "tag_name_of ?t = ''h2''" "class_str_of ?t = ''big''" by code_simp+
  from C2_candidate_leaf_boundary[THEN conjunct2, THEN conjunct2, THEN conjunct2, THEN conjunct2,
      THEN conjunct2, THEN mp, OF h]
  have c1: "\<exists>n\<in>set (extract_text_nodes demo_lib ''<div><h2 class='big'>Score: {{ value }}</h2></div>'').
      kind n = ''text'' \<and> tag_name n = ''h2'' \<and> class_str n = ''big'' \<and> display n = ''Score:''"
    by (simp only: n)
  let ?s = "Tag ''span'' [] [NavigableString ''Label {{x}}'']"
  have h2: "leaf_string ?s = Some ''Label {{x}}''" by code_simp
  have n2: "tag_name_of ?s = ''span''" "class_str_of ?s = []" by code_simp+
  from C2_candidate_leaf_boundary[where t = ?s, THEN conjunct2, THEN conjunct2, THEN conjunct2,
      THEN conjunct1, THEN mp, OF h2]
  have c2: "extract_candidate ?s = Some (''span'', [], ''Label'')" by (simp only: n2)
  let ?u = "Tag ''td'' [] [NavigableString ''{{x}}'']"
  have h3: "leaf_string ?u = Some ''{{x}}''" by code_simp
  from C2_candidate_leaf_boundary[where t = ?u, THEN conjunct2, THEN conjunct2, THEN conjunct2,
      THEN conjunct2, THEN conjunct1, THEN mp, OF h3]
  have c3: "extract_candidate ?u = None" .
  show ?thesis by (intro conjI c1 c2 c3)
qed


section \<open>Stale text addresses\<close>

lemma starts_TEXT_not_STATUS: "starts_with ''TEXT|'' k \<Longrightarrow> \<not> starts_with ''STATUS|'' k"
  by (cases k) auto

lemma text_edit_dropped:
  assumes "starts_with ''TEXT|'' k"
      and "split_max CHR ''|'' 3 k = [t0, tn, cl, occ_s]"
      and "py_int occ_s = Some occ"
      and "\<not> (1 \<le> occ \<and> occ \<le> int (length (index_get index (tn, cl))))"
  shows "text_edit index soup (k, v) = soup"
  using assms by (simp add: text_edit_def Let_def)

text \<open>
  C7: an edit whose key is a text address (\<open>TEXT|tag|class|n\<close> with \<open>n\<close> an integer literal) and
  whose occurrence index lies outside \<open>1..len\<close> of the group of its tag name and class string, in
  the index built from the document, is dropped: \<open>apply_text_edits\<close> returns (it is a total
  function, no branch of it raises) exactly what it returns for the edit set without that edit,
  so the edit has no effect and the edits before and after it are applied as they would be
  without it.
\<close>

theorem C7_out_of_range_text_edit_is_dropped:
  assumes "starts_with ''TEXT|'' k"
      and "split_max CHR ''|'' 3 k = [t0, tn, cl, occ_s]"
      and "py_int occ_s = Some occ"
      and "\<not> (1 \<le> occ \<and> occ \<le> int (length (index_get (build_index (soup_parse L html)) (tn, cl))))"
  shows "apply_text_edits L html (es1 @ (k, v) # es2) = apply_text_edits L html (es1 @ es2)"
proof -
  have "apply_text_part (soup_parse L html) (es1 @ (k, v) # es2) =
        apply_text_part (soup_parse L html) (es1 @ es2)"
    by (simp add: apply_text_part_def text_edit_dropped[OF assms])
  moreover have "collect_status_edits (es1 @ (k, v) # es2) = collect_status_edits (es1 @ es2)"
    using starts_TEXT_not_STATUS[OF assms(1)] by (simp add: collect_status_edits_def)
  ultimately show ?thesis by (simp add: apply_text_edits_def)
qed

text \<open>
  An instance: in \<open><p>Hi</p><p>Ho</p>\<close> the address \<open>TEXT|p||3\<close> is out of range.
\<close>

theorem C7_witness:
  "apply_text_edits demo_lib ''<p>Hi</p><p>Ho</p>''
     ([(''TEXT|p||1'', ''A'')] @ (''TEXT|p||3'', ''X'') # [(''TEXT|p||2'', ''B'')]) =
   apply_text_edits demo_lib ''<p>Hi</p><p>Ho</p>''
     ([(''TEXT|p||1'', ''A'')] @ [(''TEXT|p||2'', ''B'')])"
proof (rule C7_out_of_range_text_edit_is_dropped)
  show "starts_with ''TEXT|'' ''TEXT|p||3''" by simp
  show "split_max CHR ''|'' 3 ''TEXT|p||3'' = [''TEXT'', ''p'', [], ''3'']" by simp
  show "py_int ''3'' = Some 3" by code_simp
  show "\<not> (1 \<le> (3::int) \<and>
           3 \<le> int (length (index_get (build_index (soup_parse demo_lib ''<p>Hi</p><p>Ho</p>''))
                               (''p'', []))))"
    by code_simp
qed


section \<open>Image locators\<close>

lemma in_range_replaces:
  "locator_in_range soup loc \<Longrightarrow> \<exists>s. replace_image_soup soup loc url = Inr s"
  by (auto simp: locator_in_range_def replace_image_soup_def Let_def split: if_splits)

lemma out_of_range_fails_addr:
  "\<not> locator_in_range soup loc \<Longrightarrow> loc_kind loc \<in> {''img'', ''inline_style'', ''style_tag''} \<Longrightarrow>
   replace_image_soup soup loc url \<in> Inl ` {ImgIndexError, StyledTagIndexError, UrlIndexError,
      StyleBlockIndexError, CssUrlIndexError}"
  by (auto simp: locator_in_range_def replace_image_soup_def Let_def split: if_splits)

lemma enumerate_from_set:
  "(i, x) \<in> set (enumerate_from k xs) \<Longrightarrow> k \<le> i \<and> i < k + length xs \<and> xs ! (i - k) = x"
proof (induction xs arbitrary: k)
  case Nil then show ?case by simp
next
  case (Cons y ys)
  show ?case
  proof (cases "i = k \<and> x = y")
    case True then show ?thesis by simp
  next
    case False
    with Cons.prems have "(i, x) \<in> set (enumerate_from (Suc k) ys)" by auto
    from Cons.IH[OF this] show ?thesis by (auto simp: nth_Cons')
  qed
qed

lemma enumerate_from_0:
  "(i, x) \<in> set (enumerate_from 0 xs) \<Longrightarrow> i < length xs \<and> xs ! i = x"
  using enumerate_from_set[of i x 0 xs] by simp

lemma locator_image_entry [simp]: "locator (image_entry L iid sk u loc) = loc"
  by (simp add: image_entry_def Let_def split: option.split)


lemma url_fold_inv:
  "\<forall>e\<in>set (snd st). Q e \<Longrightarrow>
   (\<And>c mi u. (mi, u) \<in> set xs \<Longrightarrow> strip u \<noteq> [] \<Longrightarrow>
      Q (image_entry L (image_id c) ''background-image'' (strip u)
           \<lparr>loc_kind = k, loc_a = int ti, loc_b = int mi\<rparr>)) \<Longrightarrow>
   \<forall>e\<in>set (snd (foldl (url_step L k ti) st xs)). Q e"
proof (induction xs arbitrary: st)
  case Nil then show ?case by simp
next
  case (Cons x xs)
  obtain mi u where x: "x = (mi, u)" by (cases x)
  obtain c out where st: "st = (c, out)" by (cases st)
  have a: "\<forall>e\<in>set (snd (url_step L k ti st x)). Q e"
    using Cons.prems(1) Cons.prems(2)[of mi u "c + 1"]
    by (auto simp: url_step_def Let_def x st)
  have b: "\<And>c mi u. (mi, u) \<in> set xs \<Longrightarrow> strip u \<noteq> [] \<Longrightarrow>
      Q (image_entry L (image_id c) ''background-image'' (strip u)
           \<lparr>loc_kind = k, loc_a = int ti, loc_b = int mi\<rparr>)"
    by (rule Cons.prems(2)) simp_all
  have "\<forall>e\<in>set (snd (foldl (url_step L k ti) (url_step L k ti st x) xs)). Q e"
    by (rule Cons.IH[OF a b])
  then show ?case by simp
qed

lemma img_fold_inv:
  "\<forall>e\<in>set (snd st). Q e \<Longrightarrow>
   (\<And>c i t. (i, t) \<in> set xs \<Longrightarrow> strip (get_or_empty t ''src'') \<noteq> [] \<Longrightarrow>
      Q (image_entry L (image_id c) ''img-tag'' (strip (get_or_empty t ''src''))
           \<lparr>loc_kind = ''img'', loc_a = int i, loc_b = 0\<rparr>)) \<Longrightarrow>
   \<forall>e\<in>set (snd (foldl (img_step L) st xs)). Q e"
proof (induction xs arbitrary: st)
  case Nil then show ?case by simp
next
  case (Cons x xs)
  obtain i t where x: "x = (i, t)" by (cases x)
  obtain c out where st: "st = (c, out)" by (cases st)
  have a: "\<forall>e\<in>set (snd (img_step L st x)). Q e"
    using Cons.prems(1) Cons.prems(2)[of i t "c + 1"]
    by (auto simp: img_step_def Let_def x st)
  have b: "\<And>c i t. (i, t) \<in> set xs \<Longrightarrow> strip (get_or_empty t ''src'') \<noteq> [] \<Longrightarrow>
      Q (image_entry L (image_id c) ''img-tag'' (strip (get_or_empty t ''src''))
           \<lparr>loc_kind = ''img'', loc_a = int i, loc_b = 0\<rparr>)"
    by (rule Cons.prems(2)) simp_all
  have "\<forall>e\<in>set (snd (foldl (img_step L) (img_step L st x) xs)). Q e"
    by (rule Cons.IH[OF a b])
  then show ?case by simp
qed

lemma outer_fold_inv:
  "(\<And>st x. x \<in> set xs \<Longrightarrow> \<forall>e\<in>set (snd st). Q e \<Longrightarrow> \<forall>e\<in>set (snd (f st x)). Q e) \<Longrightarrow>
   \<forall>e\<in>set (snd st). Q e \<Longrightarrow> \<forall>e\<in>set (snd (foldl f st xs)). Q e"
proof (induction xs arbitrary: st)
  case Nil then show ?case by simp
next
  case (Cons x xs)
  have a: "\<forall>e\<in>set (snd (f st x)). Q e"
    by (rule Cons.prems(1)) (simp_all add: Cons.prems(2))
  have b: "\<And>st y. y \<in> set xs \<Longrightarrow> \<forall>e\<in>set (snd st). Q e \<Longrightarrow> \<forall>e\<in>set (snd (f st y)). Q e"
    by (rule Cons.prems(1)) simp_all
  have "\<forall>e\<in>set (snd (foldl f (f st x) xs)). Q e"
    by (rule Cons.IH[OF b a])
  then show ?case by simp
qed

lemma extract_images_soup_inv:
  assumes img: "\<And>c i u. i < length (find_all is_img soup) \<Longrightarrow> u \<noteq> [] \<Longrightarrow>
      Q (image_entry L (image_id c) ''img-tag'' u \<lparr>loc_kind = ''img'', loc_a = int i, loc_b = 0\<rparr>)"
    and inl: "\<And>c ti mi u. ti < length (find_all has_style soup) \<Longrightarrow>
      mi < length (re_findall1 BG_URL_RE (get_or_empty (snd (find_all has_style soup ! ti)) ''style'')) \<Longrightarrow>
      u \<noteq> [] \<Longrightarrow>
      Q (image_entry L (image_id c) ''background-image'' u
           \<lparr>loc_kind = ''inline_style'', loc_a = int ti, loc_b = int mi\<rparr>)"
    and blk: "\<And>c ti mi u. ti < length (find_all is_style_block soup) \<Longrightarrow>
      mi < length (re_findall1 BG_URL_RE (style_get_text (snd (find_all is_style_block soup ! ti)))) \<Longrightarrow>
      u \<noteq> [] \<Longrightarrow>
      Q (image_entry L (image_id c) ''background-image'' u
           \<lparr>loc_kind = ''style_tag'', loc_a = int ti, loc_b = int mi\<rparr>)"
  shows "\<forall>e\<in>set (extract_images_soup L soup). Q e"
proof -
  let ?imgs = "map snd (find_all is_img soup)"
  let ?s1 = "foldl (img_step L) (0, []) (enumerate_from 0 ?imgs)"
  let ?tags = "map snd (find_all has_style soup)"
  let ?s2 = "foldl (inline_step L) ?s1 (enumerate_from 0 ?tags)"
  let ?blocks = "map snd (find_all is_style_block soup)"
  let ?s3 = "foldl (block_step L) ?s2 (enumerate_from 0 ?blocks)"
  have 1: "\<forall>e\<in>set (snd ?s1). Q e"
  proof (rule img_fold_inv)
    show "\<forall>e\<in>set (snd (0::nat, [] :: ImageEntry list)). Q e" by simp
  next
    fix c i t
    assume "(i, t) \<in> set (enumerate_from 0 ?imgs)" and ne: "strip (get_or_empty t ''src'') \<noteq> []"
    then have "i < length (find_all is_img soup)" by (auto dest: enumerate_from_0)
    then show "Q (image_entry L (image_id c) ''img-tag'' (strip (get_or_empty t ''src''))
                 \<lparr>loc_kind = ''img'', loc_a = int i, loc_b = 0\<rparr>)"
      using ne by (rule img)
  qed
  have 2: "\<forall>e\<in>set (snd ?s2). Q e"
  proof (rule outer_fold_inv[OF _ 1])
    fix st :: scan and x
    assume x: "x \<in> set (enumerate_from 0 ?tags)" and st: "\<forall>e\<in>set (snd st). Q e"
    obtain ti t where xe: "x = (ti, t)" by (cases x)
    from enumerate_from_0[OF x[unfolded xe]]
    have ti: "ti < length (find_all has_style soup)" and t: "t = snd (find_all has_style soup ! ti)"
      by auto
    show "\<forall>e\<in>set (snd (inline_step L st x)). Q e"
      unfolding inline_step_def xe prod.case Let_def
    proof (rule url_fold_inv[OF st])
      fix c mi u
      assume "(mi, u) \<in> set (enumerate_from 0 (re_findall1 BG_URL_RE (get_or_empty t ''style'')))"
        and ne: "strip u \<noteq> []"
      then have "mi < length (re_findall1 BG_URL_RE (get_or_empty t ''style''))"
        by (auto dest: enumerate_from_0)
      then show "Q (image_entry L (image_id c) ''background-image'' (strip u)
                   \<lparr>loc_kind = ''inline_style'', loc_a = int ti, loc_b = int mi\<rparr>)"
        unfolding t using ne by (rule inl[OF ti])
    qed
  qed
  have 3: "\<forall>e\<in>set (snd ?s3). Q e"
  proof (rule outer_fold_inv[OF _ 2])
    fix st :: scan and x
    assume x: "x \<in> set (enumerate_from 0 ?blocks)" and st: "\<forall>e\<in>set (snd st). Q e"
    obtain ti t where xe: "x = (ti, t)" by (cases x)
    from enumerate_from_0[OF x[unfolded xe]]
    have ti: "ti < length (find_all is_style_block soup)"
      and t: "t = snd (find_all is_style_block soup ! ti)"
      by auto
    show "\<forall>e\<in>set (snd (block_step L st x)). Q e"
      unfolding block_step_def xe prod.case Let_def
    proof (rule url_fold_inv[OF st])
      fix c mi u
      assume "(mi, u) \<in> set (enumerate_from 0 (re_findall1 BG_URL_RE (style_get_text t)))"
        and ne: "strip u \<noteq> []"
      then have "mi < length (re_findall1 BG_URL_RE (style_get_text t))"
        by (auto dest: enumerate_from_0)
      then show "Q (image_entry L (image_id c) ''background-image'' (strip u)
                   \<lparr>loc_kind = ''style_tag'', loc_a = int ti, loc_b = int mi\<rparr>)"
        unfolding t using ne by (rule blk[OF ti])
    qed
  qed
  show ?thesis using 3 by (simp add: extract_images_soup_def Let_def)
qed

lemma extract_images_in_range:
  "\<forall>e\<in>set (extract_images_soup L soup). locator_in_range soup (locator e)"
  by (rule extract_images_soup_inv) (simp_all add: locator_in_range_def)

text \<open>
  C9: every entry that \<open>extract_images\<close> returns for a document carries a locator that passes
  all the range checks of \<open>replace_image_in_html\<close> on the same document: its kind is one of the
  three known kinds, both its indices are within the lists that the replacement derives again,
  and the replacement returns a document.
\<close>

theorem C9_extracted_locator_is_accepted:
  assumes "e \<in> set (extract_images L html)"
  shows "loc_kind (locator e) \<in> {''img'', ''inline_style'', ''style_tag''}
       \<and> locator_in_range (soup_parse L html) (locator e)
       \<and> (\<exists>doc. replace_image_in_html L html (locator e) new_data_url = Inr doc)"
proof -
  have r: "locator_in_range (soup_parse L html) (locator e)"
    using assms extract_images_in_range by (auto simp: extract_images_def)
  then have "loc_kind (locator e) \<in> {''img'', ''inline_style'', ''style_tag''}"
    by (auto simp: locator_in_range_def split: if_splits)
  moreover from in_range_replaces[OF r, of new_data_url]
  have "\<exists>doc. replace_image_in_html L html (locator e) new_data_url = Inr doc"
    by (auto simp: replace_image_in_html_def)
  ultimately show ?thesis using r by blast
qed

text \<open>
  An instance: the entry of the inline background of
  \<open><img src='a.png'><div style='background-image:url(b.png)'></div>\<close>.
\<close>

theorem C9_witness:
  "\<lparr>img_id = ''IMG002'', source = ''background-image'', mime = ''image/unknown'', fmt = ''?'',
     width = None, height = None, bytes_data = None, hint = ''b.png'',
     locator = \<lparr>loc_kind = ''inline_style'', loc_a = 0, loc_b = 0\<rparr>\<rparr>
     \<in> set (extract_images demo_lib ''<img src='a.png'><div style='background-image:url(b.png)'></div>'')
   \<and> (\<exists>doc. replace_image_in_html demo_lib
          ''<img src='a.png'><div style='background-image:url(b.png)'></div>''
          \<lparr>loc_kind = ''inline_style'', loc_a = 0, loc_b = 0\<rparr> ''data:image/png;base64,AAAA'' = Inr doc)"
proof -
  let ?e = "\<lparr>img_id = ''IMG002'', source = ''background-image'', mime = ''image/unknown'', fmt = ''?'',
     width = None, height = None, bytes_data = None, hint = ''b.png'',
     locator = \<lparr>loc_kind = ''inline_style'', loc_a = 0, loc_b = 0\<rparr>\<rparr>"
  have mem: "?e \<in> set (extract_images demo_lib
      ''<img src='a.png'><div style='background-image:url(b.png)'></div>'')"
    by code_simp
  from C9_extracted_locator_is_accepted[OF mem, of "''data:image/png;base64,AAAA''"] mem
  show ?thesis by simp
qed

text \<open>
  C6: a locator of one of the three kinds that fails a range check (the index \<open>a\<close> outside the
  list of \<open>img\<close> tags, of tags with a \<open>style\<close> attribute or of \<open>style\<close> blocks; for the two
  background kinds, the index \<open>b\<close> outside the list of URLs of the selected style text) makes
  \<open>replace_image_in_html\<close> fail with one of the five index errors; no document is returned.
  For the kind \<open>img\<close> there is no list of URLs and the index \<open>b\<close> is not consulted.
\<close>

theorem C6_out_of_range_locator_is_refused:
  assumes "loc_kind loc \<in> {''img'', ''inline_style'', ''style_tag''}"
      and "\<not> locator_in_range (soup_parse L html) loc"
  shows "replace_image_in_html L html loc new_data_url \<in>
           Inl ` {ImgIndexError, StyledTagIndexError, UrlIndexError, StyleBlockIndexError,
                  CssUrlIndexError}"
  using out_of_range_fails_addr[OF assms(2) assms(1), of new_data_url]
  by (auto simp: replace_image_in_html_def)

text \<open>
  An instance: index 2 in a document with two \<open>img\<close> tags.
\<close>

theorem C6_witness:
  "replace_image_in_html demo_lib ''<img src='a.png'><img src='b.png'>''
     \<lparr>loc_kind = ''img'', loc_a = 2, loc_b = 0\<rparr> ''data:image/png;base64,AAAA''
   \<in> Inl ` {ImgIndexError, StyledTagIndexError, UrlIndexError, StyleBlockIndexError,
            CssUrlIndexError}"
proof (rule C6_out_of_range_locator_is_refused)
  show "loc_kind \<lparr>loc_kind = ''img'', loc_a = 2, loc_b = 0\<rparr> \<in> {''img'', ''inline_style'', ''style_tag''}"
    by simp
  show "\<not> locator_in_range (soup_parse demo_lib ''<img src='a.png'><img src='b.png'>'')
           \<lparr>loc_kind = ''img'', loc_a = 2, loc_b = 0\<rparr>"
    by code_simp
qed


section \<open>Images that cannot be decoded\<close>

lemma enumerate_from_append:
  "enumerate_from c (xs @ ys) = enumerate_from c xs @ enumerate_from (c + length xs) ys"
  by (induction xs arbitrary: c) simp_all

lemma entries_of_append:
  "entries_of L c (xs @ ys) = entries_of L c xs @ entries_of L (c + length xs) ys"
  by (simp add: entries_of_def enumerate_from_append)

lemma entries_of_Nil [simp]: "entries_of L c [] = []"
  by (simp add: entries_of_def)

lemma scan_fold:
  assumes step: "\<And>c out x. f (c, out) x = (c + length (g x), out @ entries_of L c (g x))"
  shows "foldl f (c, out) xs =
           (c + length (concat (map g xs)), out @ entries_of L c (concat (map g xs)))"
proof (induction xs arbitrary: c out)
  case Nil
  then show ?case by simp
next
  case (Cons x xs)
  have "foldl f (c, out) (x # xs) = foldl f (c + length (g x), out @ entries_of L c (g x)) xs"
    by (simp add: step)
  also have "\<dots> = (c + length (g x) + length (concat (map g xs)),
                   (out @ entries_of L c (g x)) @
                   entries_of L (c + length (g x)) (concat (map g xs)))"
    by (rule Cons.IH)
  finally show ?case by (simp add: entries_of_append)
qed

lemma url_step_scan:
  "url_step L k ti (c, out) x =
     (c + length (case x of (mi, u) \<Rightarrow> if strip u = [] then []
                    else [(''background-image'', strip u,
                           \<lparr>loc_kind = k, loc_a = int ti, loc_b = int mi\<rparr>)]),
      out @ entries_of L c (case x of (mi, u) \<Rightarrow> if strip u = [] then []
                    else [(''background-image'', strip u,
                           \<lparr>loc_kind = k, loc_a = int ti, loc_b = int mi\<rparr>)]))"
  by (cases x) (simp add: url_step_def Let_def entries_of_def)

lemma url_fold_scan:
  "foldl (url_step L k ti) (c, out) (enumerate_from 0 urls) =
     (c + length (url_sources k ti urls), out @ entries_of L c (url_sources k ti urls))"
  unfolding url_sources_def by (rule scan_fold) (rule url_step_scan)

lemma img_step_scan:
  "img_step L (c, out) x =
     (c + length (case x of (i, t) \<Rightarrow> if strip (get_or_empty t ''src'') = [] then []
                    else [(''img-tag'', strip (get_or_empty t ''src''),
                           \<lparr>loc_kind = ''img'', loc_a = int i, loc_b = 0\<rparr>)]),
      out @ entries_of L c (case x of (i, t) \<Rightarrow> if strip (get_or_empty t ''src'') = [] then []
                    else [(''img-tag'', strip (get_or_empty t ''src''),
                           \<lparr>loc_kind = ''img'', loc_a = int i, loc_b = 0\<rparr>)]))"
  by (cases x) (simp add: img_step_def Let_def entries_of_def)

lemma inline_step_scan:
  "inline_step L (c, out) x =
     (c + length (case x of (ti, t) \<Rightarrow> url_sources ''inline_style'' ti
                                 (re_findall1 BG_URL_RE (get_or_empty t ''style''))),
      out @ entries_of L c (case x of (ti, t) \<Rightarrow> url_sources ''inline_style'' ti
                                 (re_findall1 BG_URL_RE (get_or_empty t ''style''))))"
  by (cases x) (simp add: inline_step_def Let_def url_fold_scan)

lemma block_step_scan:
  "block_step L (c, out) x =
     (c + length (case x of (ti, t) \<Rightarrow> url_sources ''style_tag'' ti
                                 (re_findall1 BG_URL_RE (style_get_text t))),
      out @ entries_of L c (case x of (ti, t) \<Rightarrow> url_sources ''style_tag'' ti
                                 (re_findall1 BG_URL_RE (style_get_text t))))"
  by (cases x) (simp add: block_step_def Let_def url_fold_scan)

lemma extract_images_soup_sources:
  "extract_images_soup L soup = entries_of L 0 (image_sources soup)"
  by (simp add: extract_images_soup_def Let_def image_sources_def entries_of_append
      scan_fold[of "img_step L", OF img_step_scan]
      scan_fold[of "inline_step L", OF inline_step_scan]
      scan_fold[of "block_step L", OF block_step_scan])

lemma enumerate_from_length [simp]: "length (enumerate_from c xs) = length xs"
  by (induction xs arbitrary: c) simp_all

lemma enumerate_from_nth: "k < length xs \<Longrightarrow> enumerate_from c xs ! k = (c + k, xs ! k)"
proof (induction xs arbitrary: c k)
  case Nil
  then show ?case by simp
next
  case (Cons x xs)
  then show ?case by (cases k) simp_all
qed

lemma entries_of_nth:
  "k < length srcs \<Longrightarrow> srcs ! k = (sk, u, loc) \<Longrightarrow>
   entries_of L c srcs ! k = image_entry L (image_id (c + k + 1)) sk u loc"
  by (simp add: entries_of_def enumerate_from_nth)

text \<open>
  C8: \<open>extract_images\<close> is a total function (no branch of it raises), and its result is one
  entry per image reference of the document: \<open>image_sources\<close> lists the references that are not
  blank in the order of the three passes, without consulting the decoder or the probe, and the
  \<open>k\<close>-th entry of the result is built from the \<open>k\<close>-th reference, whatever happens to the
  others.  If that reference is a data URL whose payload \<open>b64decode\<close> refuses, its entry holds
  the empty byte string and no size; if the payload decodes to bytes that cannot be probed (Pillow
  is missing, or \<open>Image.open\<close> raises), its entry holds the bytes and no size.
\<close>

theorem C8_one_entry_per_image_source:
  "extract_images L html = entries_of L 0 (image_sources (soup_parse L html))
   \<and> (k < length (image_sources (soup_parse L html)) \<and>
       image_sources (soup_parse L html) ! k = (sk, u, loc) \<and>
       re_match DATA_URL_RE u = Some m \<longrightarrow>
       (b64decode L (re_sub WS_RE (\<lambda>m. []) (group 3 m)) = None \<longrightarrow>
          extract_images L html ! k =
            \<lparr>img_id = image_id (k + 1), source = sk, mime = lower_str (group 1 m),
             fmt = (if contains_str ''jpeg'' (lower_str (group 1 m)) \<or>
                       contains_str ''jpg'' (lower_str (group 1 m)) then ''jpg'' else ''png''),
             width = None, height = None, bytes_data = Some [], hint = ''(data-url)'',
             locator = loc\<rparr>)
     \<and> (b64decode L (re_sub WS_RE (\<lambda>m. []) (group 3 m)) = Some d \<and>
          (\<not> PIL_OK L \<or> image_open L d = None) \<longrightarrow>
          extract_images L html ! k =
            \<lparr>img_id = image_id (k + 1), source = sk, mime = lower_str (group 1 m),
             fmt = (if contains_str ''jpeg'' (lower_str (group 1 m)) \<or>
                       contains_str ''jpg'' (lower_str (group 1 m)) then ''jpg'' else ''png''),
             width = None, height = None, bytes_data = Some d, hint = ''(data-url)'',
             locator = loc\<rparr>))"
proof (intro conjI impI)
  show a: "extract_images L html = entries_of L 0 (image_sources (soup_parse L html))"
    by (simp add: extract_images_def extract_images_soup_sources)
  {
    assume h: "k < length (image_sources (soup_parse L html)) \<and>
       image_sources (soup_parse L html) ! k = (sk, u, loc) \<and>
       re_match DATA_URL_RE u = Some m"
    then have e: "extract_images L html ! k = image_entry L (image_id (k + 1)) sk u loc"
      using entries_of_nth[of k "image_sources (soup_parse L html)" sk u loc L 0] a by simp
    {
      assume "b64decode L (re_sub WS_RE (\<lambda>m. []) (group 3 m)) = None"
      then show "extract_images L html ! k =
            \<lparr>img_id = image_id (k + 1), source = sk, mime = lower_str (group 1 m),
             fmt = (if contains_str ''jpeg'' (lower_str (group 1 m)) \<or>
                       contains_str ''jpg'' (lower_str (group 1 m)) then ''jpg'' else ''png''),
             width = None, height = None, bytes_data = Some [], hint = ''(data-url)'',
             locator = loc\<rparr>"
        using h by (simp add: e image_entry_def Let_def)
    }
    {
      assume "b64decode L (re_sub WS_RE (\<lambda>m. []) (group 3 m)) = Some d \<and>
          (\<not> PIL_OK L \<or> image_open L d = None)"
      then show "extract_images L html ! k =
            \<lparr>img_id = image_id (k + 1), source = sk, mime = lower_str (group 1 m),
             fmt = (if contains_str ''jpeg'' (lower_str (group 1 m)) \<or>
                       contains_str ''jpg'' (lower_str (group 1 m)) then ''jpg'' else ''png''),
             width = None, height = None, bytes_data = Some d, hint = ''(data-url)'',
             locator = loc\<rparr>"
        using h by (auto simp: e image_entry_def Let_def detect_size_from_bytes_def)
    }
  }
qed

text \<open>
  An instance: the payload \<open>A\<close> is not base64, the payload \<open>AAAA\<close> decodes to three zero bytes
  that are no image; both entries are in the result, followed by the entry of the third
  image.
\<close>

theorem C8_decode_failure_witness:
  "extract_images demo_lib
      ''<img src='data:image/png;base64,A'><img src='data:image/png;base64,AAAA'><img src='b.png'>'' =
     [\<lparr>img_id = ''IMG001'', source = ''img-tag'', mime = ''image/png'', fmt = ''png'',
       width = None, height = None, bytes_data = Some [], hint = ''(data-url)'',
       locator = \<lparr>loc_kind = ''img'', loc_a = 0, loc_b = 0\<rparr>\<rparr>,
      \<lparr>img_id = ''IMG002'', source = ''img-tag'', mime = ''image/png'', fmt = ''png'',
       width = None, height = None, bytes_data = Some [0, 0, 0], hint = ''(data-url)'',
       locator = \<lparr>loc_kind = ''img'', loc_a = 1, loc_b = 0\<rparr>\<rparr>,
      \<lparr>img_id = ''IMG003'', source = ''img-tag'', mime = ''image/unknown'', fmt = ''?'',
       width = None, height = None, bytes_data = None, hint = ''b.png'',
       locator = \<lparr>loc_kind = ''img'', loc_a = 2, loc_b = 0\<rparr>\<rparr>]
   \<and> bytes_data (extract_images demo_lib
      ''<img src='data:image/png;base64,A'><img src='data:image/png;base64,AAAA'><img src='b.png'>'' ! 0)
       = Some []
   \<and> bytes_data (extract_images demo_lib
      ''<img src='data:image/png;base64,A'><img src='data:image/png;base64,AAAA'><img src='b.png'>'' ! 1)
       = Some [0, 0, 0]
   \<and> width (extract_images demo_lib
      ''<img src='data:image/png;base64,A'><img src='data:image/png;base64,AAAA'><img src='b.png'>'' ! 1)
       = None"
proof -
  let ?d = "''<img src='data:image/png;base64,A'><img src='data:image/png;base64,AAAA'><img src='b.png'>''"
  let ?m0 = "(23, [(3, ''A''), (1, ''image/png''), (2, ''png'')]) :: rmatch"
  let ?m1 = "(26, [(3, ''AAAA''), (1, ''image/png''), (2, ''png'')]) :: rmatch"
  note T = C8_one_entry_per_image_source
  have a: "extract_images demo_lib ?d = entries_of demo_lib 0 (image_sources (soup_parse demo_lib ?d))"
    by (rule T[THEN conjunct1])
  have b: "entries_of demo_lib 0 (image_sources (soup_parse demo_lib ?d)) =
     [\<lparr>img_id = ''IMG001'', source = ''img-tag'', mime = ''image/png'', fmt = ''png'',
       width = None, height = None, bytes_data = Some [], hint = ''(data-url)'',
       locator = \<lparr>loc_kind = ''img'', loc_a = 0, loc_b = 0\<rparr>\<rparr>,
      \<lparr>img_id = ''IMG002'', source = ''img-tag'', mime = ''image/png'', fmt = ''png'',
       width = None, height = None, bytes_data = Some [0, 0, 0], hint = ''(data-url)'',
       locator = \<lparr>loc_kind = ''img'', loc_a = 1, loc_b = 0\<rparr>\<rparr>,
      \<lparr>img_id = ''IMG003'', source = ''img-tag'', mime = ''image/unknown'', fmt = ''?'',
       width = None, height = None, bytes_data = None, hint = ''b.png'',
       locator = \<lparr>loc_kind = ''img'', loc_a = 2, loc_b = 0\<rparr>\<rparr>]"
    by code_simp
  have h0: "0 < length (image_sources (soup_parse demo_lib ?d)) \<and>
       image_sources (soup_parse demo_lib ?d) ! 0 =
         (''img-tag'', ''data:image/png;base64,A'', \<lparr>loc_kind = ''img'', loc_a = 0, loc_b = 0\<rparr>) \<and>
       re_match DATA_URL_RE ''data:image/png;base64,A'' = Some ?m0"
    by code_simp
  have f0: "b64decode demo_lib (re_sub WS_RE (\<lambda>m. []) (group 3 ?m0)) = None"
    by code_simp
  have h1: "1 < length (image_sources (soup_parse demo_lib ?d)) \<and>
       image_sources (soup_parse demo_lib ?d) ! 1 =
         (''img-tag'', ''data:image/png;base64,AAAA'', \<lparr>loc_kind = ''img'', loc_a = 1, loc_b = 0\<rparr>) \<and>
       re_match DATA_URL_RE ''data:image/png;base64,AAAA'' = Some ?m1"
    by code_simp
  have f1: "b64decode demo_lib (re_sub WS_RE (\<lambda>m. []) (group 3 ?m1)) = Some [0, 0, 0] \<and>
          (\<not> PIL_OK demo_lib \<or> image_open demo_lib [0, 0, 0] = None)"
    by code_simp
  note e0 = T[THEN conjunct2, THEN mp, OF h0, THEN conjunct1, THEN mp, OF f0]
  note e1 = T[THEN conjunct2, THEN mp, OF h1, THEN conjunct2, THEN mp, OF f1]
  have c1: "extract_images demo_lib ?d =
     [\<lparr>img_id = ''IMG001'', source = ''img-tag'', mime = ''image/png'', fmt = ''png'',
       width = None, height = None, bytes_data = Some [], hint = ''(data-url)'',
       locator = \<lparr>loc_kind = ''img'', loc_a = 0, loc_b = 0\<rparr>\<rparr>,
      \<lparr>img_id = ''IMG002'', source = ''img-tag'', mime = ''image/png'', fmt = ''png'',
       width = None, height = None, bytes_data = Some [0, 0, 0], hint = ''(data-url)'',
       locator = \<lparr>loc_kind = ''img'', loc_a = 1, loc_b = 0\<rparr>\<rparr>,
      \<lparr>img_id = ''IMG003'', source = ''img-tag'', mime = ''image/unknown'', fmt = ''?'',
       width = None, height = None, bytes_data = None, hint = ''b.png'',
       locator = \<lparr>loc_kind = ''img'', loc_a = 2, loc_b = 0\<rparr>\<rparr>]"
    by (simp only: a b)
  have c2: "bytes_data (extract_images demo_lib ?d ! 0) = Some []"
    by (subst e0) simp
  have c3: "bytes_data (extract_images demo_lib ?d ! 1) = Some [0, 0, 0]"
    by (subst e1) simp
  have c4: "width (extract_images demo_lib ?d ! 1) = None"
    by (subst e1) simp
  show ?thesis
    by (intro conjI c1 c2 c3 c4)
qed


section \<open>The empty edit set\<close>

text \<open>
  C3, as stated: for every document, extraction after applying the empty edit set yields the
  addresses and display texts of extraction on the document.  It does not for a document that the
  parser normalizes: in \<open><p>a</b>b</p>\<close> the stray end tag splits the text of the paragraph in
  two strings, so the paragraph has no single text and is no candidate; the serialization is
  \<open><p>ab</p>\<close>, where it is one.
\<close>

theorem C3_stray_end_tag_changes_extraction:
  "extract_text_nodes demo_lib ''<p>a</b>b</p>'' = []
   \<and> soup_parse demo_lib ''<p>a</b>b</p>'' = [Tag ''p'' [] [NavigableString ''a'', NavigableString ''b'']]
   \<and> apply_text_edits demo_lib ''<p>a</b>b</p>'' [] = ''<p>ab</p>''
   \<and> map (\<lambda>n. (key n, display n))
         (extract_text_nodes demo_lib (apply_text_edits demo_lib ''<p>a</b>b</p>'' [])) =
       [(''TEXT|p||1'', ''ab'')]"
  by code_simp

text \<open>
  C3, amended: for every document, applying the empty edit set returns the serialization of the
  parsed document (nothing is mutated, the status patcher is not entered); and for every document
  whose serialization the parser reads back as the same tree, extraction after applying the
  empty edit set equals extraction on the document, addresses and display texts included.
\<close>

theorem C3_empty_edit_set_returns_serialization:
  "apply_text_edits L d [] = soup_decode L (soup_parse L d)
   \<and> (soup_parse L (soup_decode L (soup_parse L d)) = soup_parse L d \<longrightarrow>
        extract_text_nodes L (apply_text_edits L d []) = extract_text_nodes L d)"
proof (intro conjI impI)
  show a: "apply_text_edits L d [] = soup_decode L (soup_parse L d)"
    by (simp add: apply_text_edits_def apply_text_part_def collect_status_edits_def)
  assume "soup_parse L (soup_decode L (soup_parse L d)) = soup_parse L d"
  then show "extract_text_nodes L (apply_text_edits L d []) = extract_text_nodes L d"
    by (simp add: a extract_text_nodes_def extract_status_texts_from_p_status_def)
qed

text \<open>
  An instance: the reference library on a document with a heading and a status container.
\<close>

theorem C3_roundtrip_witness:
  "soup_parse demo_lib (soup_decode demo_lib (soup_parse demo_lib status_doc)) =
     soup_parse demo_lib status_doc
   \<and> extract_text_nodes demo_lib (apply_text_edits demo_lib status_doc []) =
     extract_text_nodes demo_lib status_doc"
proof -
  have h: "soup_parse demo_lib (soup_decode demo_lib (soup_parse demo_lib status_doc)) =
        soup_parse demo_lib status_doc"
    by code_simp
  from C3_empty_edit_set_returns_serialization[THEN conjunct2, THEN mp, OF h] h
  show ?thesis by (intro conjI)
qed


section \<open>Two images and one inline background\<close>

lemma update_at_Nil [simp]: "update_at p f [] = []"
  by (cases "(p, f, [] :: node list)" rule: update_at.cases) simp_all

lemma update_at_Cons_0 [simp]: "update_at [0] f (n # ns) = f n # ns"
  by simp

lemma update_at_Cons_0_deep [simp]:
  "update_at (0 # j # r) f (n # ns) =
     (case n of Tag nm as cs \<Rightarrow> Tag nm as (update_at (j # r) f cs) | _ \<Rightarrow> n) # ns"
  by (cases n) simp_all

lemma update_at_Cons_Suc [simp]:
  "update_at (Suc j # r) f (n # ns) = n # update_at (j # r) f ns"
  by (cases r) simp_all








section \<open>The branches of the status container\<close>

lemma chain_search:
  "re_search (status_pattern ''Platinum'') status_chain = None"
  "map_option (\<lambda>(i, m). group 2 m) (re_search (status_pattern ''Gold'') status_chain) = Some ''Great job ''"
  "map_option (\<lambda>(i, m). group 2 m) (re_search (status_pattern ''Silver'') status_chain) = Some ''Good job ''"
  "re_search (status_pattern ''Bronze'') status_chain = None"
  by code_simp+

lemma chain_texts:
  "norm (get_text_strip '' '' [NavigableString ''Great job '']) = ''Great job''"
  "norm (get_text_strip '' '' [NavigableString ''Good job '']) = ''Good job''"
  by code_simp+

lemma chain_patch:
  "status_loop [(''Gold'', ''Top'')] status_chain =
     take 26 status_chain @ PAD @ ''Top'' @ PAD @ drop 36 status_chain"
  by code_simp

lemma chain_parts:
  "take 26 status_chain = ''{% if status == '' @ DQUOTE @ ''Gold'' @ DQUOTE @ '' %} ''"
  "drop 36 status_chain = ''{% elif status == '' @ DQUOTE @ ''Silver'' @ DQUOTE @ '' %} Good job {% endif %}''"
  by code_simp+

lemma extract_chain:
  assumes "find_first is_p_status (soup_parse L html) = Some (pth, p)"
      and "soup_decode L (contents p) = status_chain"
      and "soup_parse L ''Great job '' = [NavigableString ''Great job '']"
      and "soup_parse L ''Good job '' = [NavigableString ''Good job '']"
  shows "extract_status_texts_from_p_status L html =
           [(''Gold'', ''Great job''), (''Silver'', ''Good job'')]"
proof -
  obtain i1 m1 where g: "re_search (status_pattern ''Gold'') status_chain = Some (i1, m1)"
      and g2: "group 2 m1 = ''Great job ''"
    using chain_search(2) by (cases "re_search (status_pattern ''Gold'') status_chain") auto
  obtain i2 m2 where s: "re_search (status_pattern ''Silver'') status_chain = Some (i2, m2)"
      and s2: "group 2 m2 = ''Good job ''"
    using chain_search(3) by (cases "re_search (status_pattern ''Silver'') status_chain") auto
  show ?thesis
    by (simp add: extract_status_texts_from_p_status_def assms STATUSES_def Let_def
        chain_search(1,4) g g2 s s2 chain_texts)
qed

lemma filter_status_plain: "filter (\<lambda>n. kind n = ''status'') (number_nodes c cs) = []"
  by (induction cs arbitrary: c) (auto simp: Let_def)

lemma tags_from_update_same:
  "(q, p) \<in> set (tags_from i ns) \<Longrightarrow>
   \<exists>j r. q = (i + j) # r \<and> update_at (j # r) (set_contents (contents p)) ns = ns"
proof (induction i ns arbitrary: q rule: tags_from.induct)
  case (1 i)
  then show ?case by simp
next
  case (2 i s ns)
  from 2(2) have "(q, p) \<in> set (tags_from (Suc i) ns)" by simp
  from 2(1)[OF this] obtain j r where "q = (Suc i + j) # r"
    and "update_at (j # r) (set_contents (contents p)) ns = ns" by blast
  then have "q = (i + Suc j) # r \<and>
     update_at (Suc j # r) (set_contents (contents p)) (NavigableString s # ns) =
       NavigableString s # ns" by simp
  then show ?case by blast
next
  case (3 i s ns)
  from 3(2) have "(q, p) \<in> set (tags_from (Suc i) ns)" by simp
  from 3(1)[OF this] obtain j r where "q = (Suc i + j) # r"
    and "update_at (j # r) (set_contents (contents p)) ns = ns" by blast
  then have "q = (i + Suc j) # r \<and>
     update_at (Suc j # r) (set_contents (contents p)) (Comment s # ns) = Comment s # ns"
    by simp
  then show ?case by blast
next
  case (4 i nm as cs ns)
  from 4(3) consider "q = [i] \<and> p = Tag nm as cs"
    | q' where "q = i # q'" "(q', p) \<in> set (tags_from 0 cs)"
    | "(q, p) \<in> set (tags_from (Suc i) ns)"
    by auto
  then show ?case
  proof cases
    case 1
    then have "q = (i + 0) # [] \<and>
      update_at (0 # []) (set_contents (contents p)) (Tag nm as cs # ns) = Tag nm as cs # ns"
      by simp
    then show ?thesis by blast
  next
    case 2
    from 4(1)[OF 2(2)] obtain j r where q': "q' = (0 + j) # r"
      and u: "update_at (j # r) (set_contents (contents p)) cs = cs" by blast
    have "q = (i + 0) # j # r \<and>
      update_at (0 # j # r) (set_contents (contents p)) (Tag nm as cs # ns) = Tag nm as cs # ns"
      using 2(1) q' u by simp
    then show ?thesis by blast
  next
    case 3
    from 4(2)[OF 3] obtain j r where "q = (Suc i + j) # r"
      and "update_at (j # r) (set_contents (contents p)) ns = ns" by blast
    then have "q = (i + Suc j) # r \<and>
      update_at (Suc j # r) (set_contents (contents p)) (Tag nm as cs # ns) = Tag nm as cs # ns"
      by simp
    then show ?thesis by blast
  qed
qed

lemma find_first_update_same:
  assumes "find_first P soup = Some (pth, p)"
  shows "update_at pth (set_contents (contents p)) soup = soup"
proof -
  from assms have "(pth, p) \<in> set (find_all P soup)"
    by (auto simp: find_first_def split: list.splits)
  then have "(pth, p) \<in> set (tags_from 0 soup)" by (simp add: find_all_def)
  from tags_from_update_same[OF this] show ?thesis by auto
qed

lemma chain_split:
  "status_chain = take 26 status_chain @ ''Great job '' @ drop 36 status_chain"
  by code_simp

text \<open>
  C4: let the status container of a document hold the chain
  \<open>{% if status == "Gold" %} Great job {% elif status == "Silver" %} Good job {% endif %}\<close> as its
  inner markup.  The parser and the serializer are the library's; of them it is assumed that the
  two branch bodies and the patched inner markup, which contain no markup, are read as plain text
  and that this text is printed as it is, and that the serialization of the document is the
  serialization of the contents of the container between a fixed prefix \<open>pre\<close> and suffix
  \<open>post\<close>.  Then the status entries of \<open>extract_text_nodes\<close> are exactly Gold with
  \<open>Great job\<close> and Silver with \<open>Good job\<close>; the document serializes to \<open>pre\<close>, the first 26
  characters of the chain (the \<open>if\<close> directive and the space after it), the Gold body, the chain
  from character 36 on (the \<open>elif\<close> directive, the Silver text and the \<open>endif\<close> directive),
  \<open>post\<close>; and patching Gold to \<open>Top\<close> returns the same string with the padded new text in
  the place of the Gold body and every other character unchanged.
\<close>

theorem C4_gold_patch_leaves_the_rest:
  assumes find: "find_first is_p_status (soup_parse L html) = Some (pth, p)"
      and inner: "soup_decode L (contents p) = status_chain"
      and body1: "soup_parse L ''Great job '' = [NavigableString ''Great job '']"
      and body2: "soup_parse L ''Good job '' = [NavigableString ''Good job '']"
      and ser: "\<forall>cs. soup_decode L (update_at pth (set_contents cs) (soup_parse L html)) =
                     pre @ soup_decode L cs @ post"
      and patched: "soup_parse L (take 26 status_chain @ PAD @ ''Top'' @ PAD @ drop 36 status_chain) =
                     [NavigableString (take 26 status_chain @ PAD @ ''Top'' @ PAD @ drop 36 status_chain)]"
      and plain: "soup_decode L [NavigableString (take 26 status_chain @ PAD @ ''Top'' @ PAD @ drop 36 status_chain)] =
                     take 26 status_chain @ PAD @ ''Top'' @ PAD @ drop 36 status_chain"
  shows "filter (\<lambda>n. kind n = ''status'') (extract_text_nodes L html) =
           [status_node ''Gold'' ''Great job'', status_node ''Silver'' ''Good job'']
       \<and> soup_decode L (soup_parse L html) =
           pre @ take 26 status_chain @ ''Great job '' @ drop 36 status_chain @ post
       \<and> apply_status_edits L html [(''Gold'', ''Top'')] =
           pre @ take 26 status_chain @ PAD @ ''Top'' @ PAD @ drop 36 status_chain @ post
       \<and> take 26 status_chain = ''{% if status == '' @ DQUOTE @ ''Gold'' @ DQUOTE @ '' %} ''
       \<and> drop 36 status_chain =
           ''{% elif status == '' @ DQUOTE @ ''Silver'' @ DQUOTE @ '' %} Good job {% endif %}''"
proof (intro conjI)
  have "status_nodes_of [(''Gold'', ''Great job''), (''Silver'', ''Good job'')] =
          [status_node ''Gold'' ''Great job'', status_node ''Silver'' ''Good job'']"
    by (simp add: status_nodes_of_def STATUSES_def)
  then show "filter (\<lambda>n. kind n = ''status'') (extract_text_nodes L html) =
           [status_node ''Gold'' ''Great job'', status_node ''Silver'' ''Good job'']"
    by (simp add: extract_text_nodes_def extract_chain[OF find inner body1 body2] plain_nodes_def
        filter_status_plain status_node_def)
next
  have "soup_decode L (soup_parse L html) =
        soup_decode L (update_at pth (set_contents (contents p)) (soup_parse L html))"
    by (simp add: find_first_update_same[OF find])
  also have "\<dots> = pre @ status_chain @ post"
    using ser inner by simp
  also have "\<dots> = pre @ (take 26 status_chain @ ''Great job '' @ drop 36 status_chain) @ post"
    using chain_split by simp
  finally show "soup_decode L (soup_parse L html) =
           pre @ take 26 status_chain @ ''Great job '' @ drop 36 status_chain @ post"
    by simp
next
  have "apply_status_edits L html [(''Gold'', ''Top'')] =
           soup_decode L (update_at pth
             (set_contents (soup_parse L
                (take 26 status_chain @ PAD @ ''Top'' @ PAD @ drop 36 status_chain)))
             (soup_parse L html))"
    by (simp only: apply_status_edits_def Let_def find inner option.case prod.case chain_patch)
  also have "\<dots> = pre @ soup_decode L (soup_parse L
                (take 26 status_chain @ PAD @ ''Top'' @ PAD @ drop 36 status_chain)) @ post"
    using ser by blast
  finally show "apply_status_edits L html [(''Gold'', ''Top'')] =
           pre @ take 26 status_chain @ PAD @ ''Top'' @ PAD @ drop 36 status_chain @ post"
    by (simp only: patched plain append_assoc)
qed (rule chain_parts)+

lemma status_doc_parse:
  "soup_parse demo_lib status_doc =
     [Tag ''h1'' [] [NavigableString ''Diploma''],
      Tag ''p'' [(''class'', ''status'')] [NavigableString status_chain]]"
  by code_simp

text \<open>
  An instance: the reference library on the document \<open>status_doc\<close>; the returned document is
  spelled out.
\<close>

theorem C4_status_patch_witness:
  "filter (\<lambda>n. kind n = ''status'') (extract_text_nodes demo_lib status_doc) =
           [status_node ''Gold'' ''Great job'', status_node ''Silver'' ''Good job'']
       \<and> soup_decode demo_lib (soup_parse demo_lib status_doc) =
           (''<h1>Diploma</h1><p class='' @ DQUOTE @ ''status'' @ DQUOTE @ ''>'') @
           take 26 status_chain @ ''Great job '' @ drop 36 status_chain @ ''</p>''
       \<and> apply_status_edits demo_lib status_doc [(''Gold'', ''Top'')] =
           (''<h1>Diploma</h1><p class='' @ DQUOTE @ ''status'' @ DQUOTE @ ''>'') @
           take 26 status_chain @ PAD @ ''Top'' @ PAD @ drop 36 status_chain @ ''</p>''
       \<and> take 26 status_chain = ''{% if status == '' @ DQUOTE @ ''Gold'' @ DQUOTE @ '' %} ''
       \<and> drop 36 status_chain =
           ''{% elif status == '' @ DQUOTE @ ''Silver'' @ DQUOTE @ '' %} Good job {% endif %}''
       \<and> apply_status_edits demo_lib status_doc [(''Gold'', ''Top'')] =
           ''<h1>Diploma</h1><p class='' @ DQUOTE @ ''status'' @ DQUOTE @ ''>{% if status == '' @ DQUOTE @
           ''Gold'' @ DQUOTE @ '' %} '' @ PAD @ ''Top'' @ PAD @ ''{% elif status == '' @ DQUOTE @
           ''Silver'' @ DQUOTE @ '' %} Good job {% endif %}</p>''"
proof -
  have R: "filter (\<lambda>n. kind n = ''status'') (extract_text_nodes demo_lib status_doc) =
           [status_node ''Gold'' ''Great job'', status_node ''Silver'' ''Good job'']
       \<and> soup_decode demo_lib (soup_parse demo_lib status_doc) =
           (''<h1>Diploma</h1><p class='' @ DQUOTE @ ''status'' @ DQUOTE @ ''>'') @
           take 26 status_chain @ ''Great job '' @ drop 36 status_chain @ ''</p>''
       \<and> apply_status_edits demo_lib status_doc [(''Gold'', ''Top'')] =
           (''<h1>Diploma</h1><p class='' @ DQUOTE @ ''status'' @ DQUOTE @ ''>'') @
           take 26 status_chain @ PAD @ ''Top'' @ PAD @ drop 36 status_chain @ ''</p>''
       \<and> take 26 status_chain = ''{% if status == '' @ DQUOTE @ ''Gold'' @ DQUOTE @ '' %} ''
       \<and> drop 36 status_chain =
           ''{% elif status == '' @ DQUOTE @ ''Silver'' @ DQUOTE @ '' %} Good job {% endif %}''"
  proof (rule C4_gold_patch_leaves_the_rest)
  show "find_first is_p_status (soup_parse demo_lib status_doc) =
          Some ([1], Tag ''p'' [(''class'', ''status'')] [NavigableString status_chain])"
    by code_simp
  show "soup_decode demo_lib (contents (Tag ''p'' [(''class'', ''status'')] [NavigableString status_chain])) =
          status_chain"
    by code_simp
  show "soup_parse demo_lib ''Great job '' = [NavigableString ''Great job '']" by code_simp
  show "soup_parse demo_lib ''Good job '' = [NavigableString ''Good job '']" by code_simp
  show "\<forall>cs. soup_decode demo_lib (update_at [1] (set_contents cs) (soup_parse demo_lib status_doc)) =
          (''<h1>Diploma</h1><p class='' @ DQUOTE @ ''status'' @ DQUOTE @ ''>'') @
          soup_decode demo_lib cs @ ''</p>''"
    unfolding status_doc_parse by (simp add: demo_lib_def VOID_TAGS_def DQUOTE_def)
  show "soup_parse demo_lib (take 26 status_chain @ PAD @ ''Top'' @ PAD @ drop 36 status_chain) =
          [NavigableString (take 26 status_chain @ PAD @ ''Top'' @ PAD @ drop 36 status_chain)]"
    by code_simp
  show "soup_decode demo_lib
          [NavigableString (take 26 status_chain @ PAD @ ''Top'' @ PAD @ drop 36 status_chain)] =
          take 26 status_chain @ PAD @ ''Top'' @ PAD @ drop 36 status_chain"
    by code_simp
qed
  have c: "apply_status_edits demo_lib status_doc [(''Gold'', ''Top'')] =
           ''<h1>Diploma</h1><p class='' @ DQUOTE @ ''status'' @ DQUOTE @ ''>{% if status == '' @ DQUOTE @
           ''Gold'' @ DQUOTE @ '' %} '' @ PAD @ ''Top'' @ PAD @ ''{% elif status == '' @ DQUOTE @
           ''Silver'' @ DQUOTE @ '' %} Good job {% endif %}</p>''"
    using R[THEN conjunct2, THEN conjunct2, THEN conjunct1] by (simp add: chain_parts)
  from R c show ?thesis by (intro conjI) simp_all
qed

end
